theory Spec2Isabelle
  imports Main "HOL-Library.Char_ord" "HOL-Library.List_Lexorder"
begin

section \<open>Python values shared by the modules\<close>

text \<open>
  The exceptions the modelled functions raise or let through. \<open>UnboundLocalError\<close> is
  Python's subclass of \<open>NameError\<close> raised on reading a local variable that was never
  assigned. \<open>OtherError\<close> stands for any exception class the modelled code neither raises
  nor catches by name.
\<close>

datatype exn =
    TypeError
  | ValueError
  | IndexError
  | KeyError
  | AttributeError
  | NameError
  | UnboundLocalError
  | ValidationError
  | DoesNotExist
  | Http404
  | ActionException string
  | OtherError string

fun is_NameError :: "exn \<Rightarrow> bool" where
  "is_NameError NameError = True"
| "is_NameError UnboundLocalError = True"
| "is_NameError _ = False"

text \<open>
  A \<open>QueryDict\<close> (\<open>request.GET\<close>, \<open>request.POST\<close>) is a dictionary from keys to lists of
  values, kept in insertion order.
\<close>

type_synonym 'v multi_value_dict = "(string \<times> 'v list) list"

text \<open>\<open>MultiValueDict.get(key, default)\<close>: the last value stored under the key; \<open>None\<close>
  stands for "the default is returned" (missing key, or an empty list of values).\<close>

definition mvd_get :: "('k \<times> 'v list) list \<Rightarrow> 'k \<Rightarrow> 'v option" where
  "mvd_get d k =
     (case map_of d k of
        None \<Rightarrow> None
      | Some vs \<Rightarrow> (if vs = [] then None else Some (last vs)))"

text \<open>\<open>MultiValueDict.getlist(key)\<close>: the list stored under the key, \<open>[]\<close> when missing.\<close>

definition mvd_getlist :: "('k \<times> 'v list) list \<Rightarrow> 'k \<Rightarrow> 'v list" where
  "mvd_getlist d k = (case map_of d k of None \<Rightarrow> [] | Some vs \<Rightarrow> vs)"

section \<open>views/mixins.py: AdjustablePaginationMixin\<close>

text \<open>
  The view as far as \<open>get_paginate_by\<close> reads it. The keys and the values of
  \<open>request.GET\<close> are Python strings; the method compares keys and hands a value to the
  built-in \<open>int\<close>, so both are kept as types \<open>'k\<close> and \<open>'s\<close>, and \<open>int\<close> on a string is a
  parameter \<open>int_of_str\<close>: it returns the integer or raises.
\<close>

record ('k, 's) pagination_view =
  request_GET :: "('k \<times> 's list) list"
  pagination_choices :: "int list"
  pagination_param :: 'k

text \<open>\<open>int(self.request.GET.get(self.pagination_param, 0))\<close>: the default \<open>0\<close> is already
  an integer, a stored value is a string and goes through \<open>int_of_str\<close>.\<close>

definition requested_page_size ::
  "('s \<Rightarrow> exn + int) \<Rightarrow> ('k, 's) pagination_view \<Rightarrow> exn + int" where
  "requested_page_size int_of_str v =
     (case mvd_get (request_GET v) (pagination_param v) of
        None \<Rightarrow> Inr 0
      | Some s \<Rightarrow> int_of_str s)"

text \<open>The body after the conversion: the pairs \<open>(abs(i - param), i)\<close>, sorted on the first
  component by a stable sort, and the second component of the first pair. Indexing the
  empty list raises \<open>IndexError\<close>.\<close>

definition nearest_choice :: "int list \<Rightarrow> int \<Rightarrow> exn + int" where
  "nearest_choice cs param =
     (case sort_key fst (map (\<lambda>i. (\<bar>i - param\<bar>, i)) cs) of
        [] \<Rightarrow> Inl IndexError
      | c # _ \<Rightarrow> Inr (snd c))"

text \<open>\<open>except TypeError: param = 0\<close> catches \<open>TypeError\<close> and nothing else.\<close>

definition get_paginate_by ::
  "('s \<Rightarrow> exn + int) \<Rightarrow> ('k, 's) pagination_view \<Rightarrow> exn + int" where
  "get_paginate_by int_of_str v =
     (case requested_page_size int_of_str v of
        Inl TypeError \<Rightarrow> nearest_choice (pagination_choices v) 0
      | Inl e \<Rightarrow> Inl e
      | Inr param \<Rightarrow> nearest_choice (pagination_choices v) param)"

text \<open>The class attributes of \<open>AdjustablePaginationMixin\<close>, for a request with the given
  query parameters.\<close>

definition default_pagination_view :: "(string \<times> 's list) list \<Rightarrow> (string, 's) pagination_view" where
  "default_pagination_view g =
     \<lparr>request_GET = g, pagination_choices = [25, 50, 100, 200],
      pagination_param = ''paginate_by''\<rparr>"

section \<open>auth/mixins.py: ModelUserFieldPermissionMixin\<close>

text \<open>
  A Python object as far as \<open>test_func\<close> looks at it: its truth value (\<open>bool(object)\<close>;
  \<open>True\<close> for a model instance unless its class says otherwise) and its attributes.
  Users are values of a type \<open>'u\<close> compared with \<open>=\<close>. An optional object is \<open>None\<close>
  for Python's \<open>None\<close>.
\<close>

record 'u model_object =
  obj_truthy :: bool
  obj_attrs :: "string \<rightharpoonup> 'u"

text \<open>\<open>getattr(object, name)\<close>: \<open>AttributeError\<close> when the attribute is missing (always so on
  \<open>None\<close>, which has no model attribute).\<close>

definition py_getattr :: "'u model_object option \<Rightarrow> string \<Rightarrow> exn + 'u" where
  "py_getattr ob name =
     (case ob of
        None \<Rightarrow> Inl AttributeError
      | Some o1 \<Rightarrow> (case obj_attrs o1 name of None \<Rightarrow> Inl AttributeError | Some u \<Rightarrow> Inr u))"

text \<open>
  The view instance: \<open>view_object\<close> is \<open>getattr(self, 'object', None)\<close>;
  \<open>view_get_object\<close> is \<open>None\<close> when the instance has no \<open>get_object\<close> method and
  otherwise what calling it yields; \<open>view_queryset_first\<close> is what evaluating
  \<open>self.get_queryset().first()\<close> yields (an exception, for instance \<open>AttributeError\<close> on
  a view without \<open>get_queryset\<close>, or the first record, if any).
\<close>

record 'u permission_view =
  model_permission_user_field :: string
  request_user :: 'u
  view_object :: "'u model_object option"
  view_get_object :: "(exn + 'u model_object option) option"
  view_queryset_first :: "exn + 'u model_object option"

definition get_model_permission_user_field :: "'u permission_view \<Rightarrow> string" where
  "get_model_permission_user_field v = model_permission_user_field v"

text \<open>The last line of \<open>test_func\<close>: \<open>current_user == getattr(object, model_attr)\<close>.\<close>

definition compare_user :: "'u \<Rightarrow> 'u model_object option \<Rightarrow> string \<Rightarrow> exn + bool" where
  "compare_user current_user ob model_attr =
     (case py_getattr ob model_attr of
        Inl e \<Rightarrow> Inl e
      | Inr u \<Rightarrow> Inr (current_user = u))"

text \<open>The \<open>else\<close> branch evaluates \<open>self.get_queryset().first()\<close> and drops the result, so
  the local \<open>object\<close> is unbound when the last line reads it.\<close>

definition test_func :: "'u permission_view \<Rightarrow> exn + bool" where
  "test_func v =
     (let model_attr = get_model_permission_user_field v;
          current_user = request_user v
      in if (case view_object v of None \<Rightarrow> False | Some o1 \<Rightarrow> obj_truthy o1) then
           compare_user current_user (view_object v) model_attr
         else
           (case view_get_object v of
              Some r \<Rightarrow>
                (case r of
                   Inl e \<Rightarrow> Inl e
                 | Inr ob \<Rightarrow> compare_user current_user ob model_attr)
            | None \<Rightarrow>
                (case view_queryset_first v of
                   Inl e \<Rightarrow> Inl e
                 | Inr _ \<Rightarrow> Inl UnboundLocalError)))"

text \<open>An instance of a view class that keeps the mixin's class attribute
  \<open>model_permission_user_field = 'user'\<close>.\<close>

definition default_permission_view ::
  "'u \<Rightarrow> 'u model_object option \<Rightarrow> (exn + 'u model_object option) option
     \<Rightarrow> exn + 'u model_object option \<Rightarrow> 'u permission_view" where
  "default_permission_view user ob get_ob first =
     \<lparr>model_permission_user_field = ''user'', request_user = user, view_object = ob,
      view_get_object = get_ob, view_queryset_first = first\<rparr>"

section \<open>templatetags/url\_tools.py: build\_query\_string\<close>

text \<open>Values a keyword parameter or a dictionary entry can hold. \<open>PEmptyList\<close> is the
  \<open>[]\<close> that \<open>MultiValueDict.__getitem__\<close> returns for a key with no value.\<close>

datatype pyval = PNone | PStr string | PInt int | PBool bool | PEmptyList

text \<open>\<open>QueryDict.copy()\<close>: a mutable copy with the same keys and lists of values.\<close>

definition qd_copy :: "string multi_value_dict \<Rightarrow> pyval multi_value_dict" where
  "qd_copy d = map (\<lambda>(k, vs). (k, map PStr vs)) d"

text \<open>\<open>p[k] = v\<close>: the key keeps its place when present and is appended otherwise; the
  stored list is \<open>[v]\<close>.\<close>

fun mvd_setitem :: "string \<Rightarrow> 'v \<Rightarrow> 'v multi_value_dict \<Rightarrow> 'v multi_value_dict" where
  "mvd_setitem k v [] = [(k, [v])]"
| "mvd_setitem k v (e # d) =
     (if fst e = k then (k, [v]) # d else e # mvd_setitem k v d)"

text \<open>\<open>del p[k]\<close> for a key that is present.\<close>

definition mvd_delitem :: "string \<Rightarrow> 'v multi_value_dict \<Rightarrow> 'v multi_value_dict" where
  "mvd_delitem k d = filter (\<lambda>e. fst e \<noteq> k) d"

text \<open>\<open>k in p\<close>.\<close>

definition mvd_contains :: "'v multi_value_dict \<Rightarrow> string \<Rightarrow> bool" where
  "mvd_contains d k = (k \<in> set (map fst d))"

text \<open>\<open>p.items()\<close>: each key with the last value of its list.\<close>

definition qd_items :: "pyval multi_value_dict \<Rightarrow> (string \<times> pyval) list" where
  "qd_items d = map (\<lambda>(k, vs). (k, if vs = [] then PEmptyList else last vs)) d"

text \<open>One round of the loop over \<open>params.items()\<close>.\<close>

definition apply_param :: "string \<times> pyval \<Rightarrow> pyval multi_value_dict \<Rightarrow> pyval multi_value_dict" where
  "apply_param kv p =
     (if snd kv = PNone then
        (if mvd_contains p (fst kv) then mvd_delitem (fst kv) p else p)
      else mvd_setitem (fst kv) (snd kv) p)"

record http_request =
  req_GET :: "string multi_value_dict"
  req_POST :: "string multi_value_dict"
  req_full_path :: string

text \<open>
  The argument of \<open>urlencode\<close>: \<open>sorted(p.items())\<close> after the loop. A request that is
  falsy in the template (\<open>None\<close>) starts from the empty dictionary. \<open>sorted\<close> is stable
  and the keys of a dictionary are distinct, so the order is that of the keys.
\<close>

definition query_items :: "http_request option \<Rightarrow> (string \<times> pyval) list \<Rightarrow> (string \<times> pyval) list" where
  "query_items request params =
     (let p = (case request of None \<Rightarrow> [] | Some r \<Rightarrow> qd_copy (req_GET r))
      in sort_key fst (qd_items (fold apply_param params p)))"

text \<open>\<open>urlencode\<close> is the framework's (\<open>django.utils.http\<close>): a parameter.\<close>

definition build_query_string ::
  "((string \<times> pyval) list \<Rightarrow> string) \<Rightarrow> http_request option \<Rightarrow> (string \<times> pyval) list \<Rightarrow> string" where
  "build_query_string urlencode request params = urlencode (query_items request params)"

text \<open>
  The same pairs as the specification words them: start from the request's parameters
  (each key with its last value), and for each keyword parameter in turn delete the key
  when the value is \<open>None\<close> and set it otherwise.
\<close>

definition spec_get_params :: "http_request option \<Rightarrow> (string \<rightharpoonup> pyval)" where
  "spec_get_params request =
     (case request of
        None \<Rightarrow> Map.empty
      | Some r \<Rightarrow>
          (\<lambda>k. case map_of (req_GET r) k of
                 None \<Rightarrow> None
               | Some vs \<Rightarrow> Some (if vs = [] then PEmptyList else PStr (last vs))))"

definition spec_merge :: "(string \<times> pyval) list \<Rightarrow> (string \<rightharpoonup> pyval) \<Rightarrow> (string \<rightharpoonup> pyval)" where
  "spec_merge params m =
     fold (\<lambda>kv m. if snd kv = PNone then m(fst kv := None) else m(fst kv \<mapsto> snd kv)) params m"

section \<open>views/mixins.py: the action decorator\<close>

text \<open>
  A function object: its \<open>__name__\<close>, the attributes set on it, and what calling it does.
  Setting an attribute changes \<open>fn_attrs\<close> only, so two records that differ in
  \<open>fn_attrs\<close> alone are the same function with different metadata.
\<close>

datatype attr_val = ABool bool | AStr string | APerms "string list"

record 'b py_function =
  fn_name :: string
  fn_attrs :: "string \<rightharpoonup> attr_val"
  fn_body :: 'b

definition setattr :: "string \<Rightarrow> attr_val \<Rightarrow> 'b py_function \<Rightarrow> 'b py_function" where
  "setattr name a func = func\<lparr>fn_attrs := (fn_attrs func)(name \<mapsto> a)\<rparr>"

definition decorator ::
  "string list option \<Rightarrow> string option \<Rightarrow> bool \<Rightarrow> 'b py_function \<Rightarrow> 'b py_function" where
  "decorator permissions description allow_select_across func =
     (let func1 = (case permissions of
                     None \<Rightarrow> func
                   | Some p \<Rightarrow> setattr ''allowed_permissions'' (APerms p) func);
          func2 = (case description of
                     None \<Rightarrow> func1
                   | Some d \<Rightarrow> setattr ''short_description'' (AStr d) func1)
      in setattr ''allow_select_across'' (ABool allow_select_across) func2)"

text \<open>\<open>action\<close> returns the decorator when called without a function (the form
  \<open>@action(...)\<close>) and the decorated function otherwise (the bare form \<open>@action\<close>).\<close>

datatype 'b action_result =
    Decorator "'b py_function \<Rightarrow> 'b py_function"
  | Decorated "'b py_function"

definition action ::
  "'b py_function option \<Rightarrow> string list option \<Rightarrow> string option \<Rightarrow> bool \<Rightarrow> 'b action_result" where
  "action function permissions description allow_select_across =
     (case function of
        None \<Rightarrow> Decorator (decorator permissions description allow_select_across)
      | Some f \<Rightarrow> Decorated (decorator permissions description allow_select_across f))"

text \<open>Using the result on a function \<open>f\<close>: \<open>@action\<close> gives \<open>action(f)\<close>,
  \<open>@action(...)\<close> gives \<open>action(...)(f)\<close>.\<close>

fun decorate :: "'b action_result \<Rightarrow> 'b py_function \<Rightarrow> 'b py_function" where
  "decorate (Decorator d) f = d f"
| "decorate (Decorated g) f = g"

text \<open>The bare form \<open>@action\<close>: every keyword argument has its default.\<close>

definition bare_action :: "'b py_function \<Rightarrow> 'b action_result" where
  "bare_action f = action (Some f) None None False"

section \<open>views/mixins.py: methods taken over from the framework\<close>

text \<open>
  \<open>get_query_string = ChangeList.get_query_string\<close> and
  \<open>_filter_actions_by_permissions = ModelAdmin._filter_actions_by_permissions\<close> in the
  class bodies bind the framework's functions as methods of the mixins. The framework's
  functions are parameters; each takes the instance first.
\<close>

definition SelectActionMixin_get_query_string ::
  "('self \<Rightarrow> 'n \<Rightarrow> 'm \<Rightarrow> 's) \<Rightarrow> 'self \<Rightarrow> 'n \<Rightarrow> 'm \<Rightarrow> 's" where
  "SelectActionMixin_get_query_string ChangeList_get_query_string = ChangeList_get_query_string"

definition SelectActionMixin_filter_actions_by_permissions ::
  "('self \<Rightarrow> 'rq \<Rightarrow> 'a \<Rightarrow> 'a) \<Rightarrow> 'self \<Rightarrow> 'rq \<Rightarrow> 'a \<Rightarrow> 'a" where
  "SelectActionMixin_filter_actions_by_permissions ModelAdmin_filter_actions_by_permissions =
     ModelAdmin_filter_actions_by_permissions"

definition ListFilterMixin_get_query_string ::
  "('self \<Rightarrow> 'n \<Rightarrow> 'm \<Rightarrow> 's) \<Rightarrow> 'self \<Rightarrow> 'n \<Rightarrow> 'm \<Rightarrow> 's" where
  "ListFilterMixin_get_query_string ChangeList_get_query_string = ChangeList_get_query_string"

definition AdjustablePaginationMixin_get_query_string ::
  "('self \<Rightarrow> 'n \<Rightarrow> 'm \<Rightarrow> 's) \<Rightarrow> 'self \<Rightarrow> 'n \<Rightarrow> 'm \<Rightarrow> 's" where
  "AdjustablePaginationMixin_get_query_string ChangeList_get_query_string =
     ChangeList_get_query_string"

text \<open>The callers in the mixins. The two optional arguments \<open>new_params\<close> and \<open>remove\<close>
  are \<open>None\<close> when not passed.\<close>

definition get_action_form_url ::
  "('self \<Rightarrow> 'n option \<Rightarrow> 'm option \<Rightarrow> 's) \<Rightarrow> 'self \<Rightarrow> 's" where
  "get_action_form_url ChangeList_get_query_string self =
     SelectActionMixin_get_query_string ChangeList_get_query_string self None None"

definition get_pagination_form_url ::
  "(('k, 'v) pagination_view \<Rightarrow> 'n option \<Rightarrow> 'k list option \<Rightarrow> 's)
     \<Rightarrow> ('k, 'v) pagination_view \<Rightarrow> 's" where
  "get_pagination_form_url ChangeList_get_query_string self =
     AdjustablePaginationMixin_get_query_string ChangeList_get_query_string self None
       (Some [pagination_param self])"

section \<open>views/mixins.py: SelectActionMixin\<close>

text \<open>
  \<open>messages.warning\<close> and \<open>messages.error\<close> record a message at a level. The texts are
  the source's literals, named; \<open>SelectionMaxExceeded n\<close> is the one formatted with
  \<open>num = n\<close>, \<open>ActionFailed s\<close> is \<open>str(e)\<close> of a caught \<open>ActionException\<close>.
\<close>

datatype level = WARNING | ERROR

datatype msg_text =
    ItemsMustBeSelected
  | SelectionMaxExceeded int
  | DiscreteSelectionRequired
  | NoActionSelected
  | ActionFailed string

text \<open>Instances of \<open>HttpResponseBase\<close>: the redirect of \<open>handle_action_finished\<close>, or a
  response an action function built.\<close>

datatype 'r http_response = HttpResponseRedirect string | ActionResponse 'r

text \<open>
  An action function acts on the world \<open>'w\<close>: everything a call of it can change (the
  records, the session). Calling \<open>func(self, request, queryset)\<close> in a world gives the
  world it leaves and what the call does: it returns (\<open>Some\<close> response when the value is
  an \<open>HttpResponseBase\<close>, \<open>None\<close> for any other value) or raises. A world that differs
  from the one before is the trace of a call.
\<close>

datatype 'r call_result = Returned "'r http_response option" | Raised exn

type_synonym ('q, 'r, 'w) action_fn = "('q \<Rightarrow> 'w \<Rightarrow> 'r call_result \<times> 'w) py_function"

type_synonym ('q, 'r, 'w) action_entry = "('q, 'r, 'w) action_fn \<times> string \<times> string"

text \<open>An entry of \<open>self.actions\<close>: a callable, or the name of an attribute of the class.\<close>

datatype ('q, 'r, 'w) action_spec = Callable "('q, 'r, 'w) action_fn" | ByName string

text \<open>
  The view: \<open>class_attrs\<close> answers \<open>hasattr(self.__class__, name)\<close> and
  \<open>getattr(self.__class__, name)\<close>; \<open>action_form\<close> is the form class, as the function from
  the choices of its \<open>action\<close> field and the submitted data to \<open>cleaned_data\<close> (the action
  name and \<open>select_across\<close>) when \<open>is_valid()\<close> holds and to \<open>None\<close> when it does not.
\<close>

record ('q, 'r, 'w) select_action_view =
  view_actions :: "('q, 'r, 'w) action_spec list option"
  class_attrs :: "string \<rightharpoonup> ('q, 'r, 'w) action_fn"
  action_form :: "(string \<times> string) list \<Rightarrow> string multi_value_dict \<Rightarrow> (string \<times> bool) option"
  action_selection_max :: "int option"

text \<open>
  What the mixin uses of the framework: \<open>ModelAdmin._filter_actions_by_permissions\<close>,
  \<open>ModelAdmin._get_action_description\<close>, the formatting of a description with
  \<open>model_format_dict(opts)\<close>, and \<open>queryset.filter(pk__in=selected)\<close>, which gives the
  filtered queryset or raises (a selected value that is no value of the key's type is
  refused when the filter is built).
\<close>

record ('q, 'r, 'w) admin_framework =
  ModelAdmin_filter_actions_by_permissions ::
    "('q, 'r, 'w) select_action_view \<Rightarrow> http_request \<Rightarrow> ('q, 'r, 'w) action_entry list
       \<Rightarrow> ('q, 'r, 'w) action_entry list"
  ModelAdmin_get_action_description :: "('q, 'r, 'w) action_fn \<Rightarrow> string \<Rightarrow> string"
  format_description :: "string \<Rightarrow> string"
  filter_pk_in :: "string list \<Rightarrow> 'q \<Rightarrow> exn + 'q"

definition ACTION_CHECKBOX_NAME :: string where
  "ACTION_CHECKBOX_NAME = ''_selected_action''"

definition BLANK_CHOICE_DASH :: "(string \<times> string) list" where
  "BLANK_CHOICE_DASH = [([], ''---------'')]"

definition get_action ::
  "('q, 'r, 'w) admin_framework \<Rightarrow> ('q, 'r, 'w) select_action_view \<Rightarrow> ('q, 'r, 'w) action_spec
     \<Rightarrow> ('q, 'r, 'w) action_entry option" where
  "get_action fw self a =
     (case a of
        Callable func \<Rightarrow>
          Some (func, fn_name func, ModelAdmin_get_action_description fw func (fn_name func))
      | ByName name \<Rightarrow>
          (case class_attrs self name of
             Some func \<Rightarrow> Some (func, name, ModelAdmin_get_action_description fw func name)
           | None \<Rightarrow> None))"

definition get_base_actions ::
  "('q, 'r, 'w) admin_framework \<Rightarrow> ('q, 'r, 'w) select_action_view \<Rightarrow> ('q, 'r, 'w) action_entry list" where
  "get_base_actions fw self =
     List.map_filter (get_action fw self)
       (case view_actions self of None \<Rightarrow> [] | Some as \<Rightarrow> as)"

text \<open>A dictionary in insertion order; a key set again keeps its place and takes the new
  value.\<close>

fun dict_setitem :: "'k \<Rightarrow> 'v \<Rightarrow> ('k \<times> 'v) list \<Rightarrow> ('k \<times> 'v) list" where
  "dict_setitem k v [] = [(k, v)]"
| "dict_setitem k v (e # d) = (if fst e = k then (k, v) # d else e # dict_setitem k v d)"

definition get_actions ::
  "('q, 'r, 'w) admin_framework \<Rightarrow> ('q, 'r, 'w) select_action_view \<Rightarrow> http_request
     \<Rightarrow> (string \<times> ('q, 'r, 'w) action_entry) list" where
  "get_actions fw self request =
     (case view_actions self of
        None \<Rightarrow> []
      | Some _ \<Rightarrow>
          fold (\<lambda>e d. dict_setitem (fst (snd e)) e d)
            (SelectActionMixin_filter_actions_by_permissions
               (ModelAdmin_filter_actions_by_permissions fw) self request (get_base_actions fw self))
            [])"

definition get_action_choices ::
  "('q, 'r, 'w) admin_framework \<Rightarrow> ('q, 'r, 'w) select_action_view \<Rightarrow> http_request
     \<Rightarrow> (string \<times> string) list" where
  "get_action_choices fw self request =
     BLANK_CHOICE_DASH @
     map (\<lambda>e. (fst (snd (snd e)), format_description fw (snd (snd (snd e)))))
       (get_actions fw self request)"

text \<open>\<open>getattr(action, "allow_select_across", False)\<close>, read as a truth value.\<close>

fun attr_truthy :: "attr_val \<Rightarrow> bool" where
  "attr_truthy (ABool b) = b"
| "attr_truthy (AStr s) = (s \<noteq> [])"
| "attr_truthy (APerms ps) = (ps \<noteq> [])"

definition can_select_across :: "http_request \<Rightarrow> 'b py_function \<Rightarrow> bool" where
  "can_select_across request func =
     (case fn_attrs func ''allow_select_across'' of None \<Rightarrow> False | Some a \<Rightarrow> attr_truthy a)"

definition handle_action_finished :: "http_request \<Rightarrow> 'r http_response" where
  "handle_action_finished request = HttpResponseRedirect (req_full_path request)"

text \<open>\<open>data.pop(key, None)\<close>.\<close>

definition mvd_pop :: "string \<Rightarrow> 'v multi_value_dict \<Rightarrow> 'v multi_value_dict" where
  "mvd_pop k d = filter (\<lambda>e. fst e \<noteq> k) d"

text \<open>
  What one call of \<open>response_action\<close> does: its return value (\<open>Inr None\<close> for \<open>None\<close>) or
  the exception it lets through, the messages it records, in order, and the world it
  leaves.
\<close>

record ('r, 'w) action_run =
  returned :: "exn + 'r http_response option"
  recorded :: "(level \<times> msg_text) list"
  world_after :: 'w

text \<open>The call of the action function and what follows it: an \<open>ActionException\<close> is
  caught and recorded, any other exception goes through.\<close>

definition call_action ::
  "http_request \<Rightarrow> ('q, 'r, 'w) action_fn \<Rightarrow> 'q \<Rightarrow> 'w \<Rightarrow> ('r, 'w) action_run" where
  "call_action request func queryset w =
     (case fn_body func queryset w of
        (Raised (ActionException s), w') \<Rightarrow>
          \<lparr>returned = Inr (Some (handle_action_finished request)),
           recorded = [(ERROR, ActionFailed s)], world_after = w'\<rparr>
      | (Raised e, w') \<Rightarrow>
          \<lparr>returned = Inl e, recorded = [], world_after = w'\<rparr>
      | (Returned (Some response), w') \<Rightarrow>
          \<lparr>returned = Inr (Some response), recorded = [], world_after = w'\<rparr>
      | (Returned None, w') \<Rightarrow>
          \<lparr>returned = Inr (Some (handle_action_finished request)),
           recorded = [], world_after = w'\<rparr>)"

text \<open>From the comment \<open># Perform the action\<close> on. An exception of
  \<open>queryset.filter\<close> goes through before the function is called.\<close>

definition perform_action ::
  "('q, 'r, 'w) admin_framework \<Rightarrow> http_request \<Rightarrow> ('q, 'r, 'w) action_fn \<Rightarrow> string list \<Rightarrow> bool
     \<Rightarrow> 'q \<Rightarrow> 'w \<Rightarrow> ('r, 'w) action_run" where
  "perform_action fw request func selected select_across queryset w =
     (if \<not> select_across then
        (case filter_pk_in fw selected queryset of
           Inl e \<Rightarrow> \<lparr>returned = Inl e, recorded = [], world_after = w\<rparr>
         | Inr filtered \<Rightarrow> call_action request func filtered w)
      else if \<not> can_select_across request func then
        \<lparr>returned = Inr None, recorded = [(ERROR, DiscreteSelectionRequired)],
         world_after = w\<rparr>
      else call_action request func queryset w)"

text \<open>The test of the selection cap: \<open>Some m\<close> when \<open>action_selection_max\<close> is \<open>m\<close> and the
  cap blocks the request.\<close>

definition selection_cap_exceeded :: "bool \<Rightarrow> int option \<Rightarrow> string list \<Rightarrow> int option" where
  "selection_cap_exceeded select_across selection_max selected =
     (case selection_max of
        None \<Rightarrow> None
      | Some m \<Rightarrow> (if \<not> select_across \<and> int (length selected) > m then Some m else None))"

definition response_action ::
  "('q, 'r, 'w) admin_framework \<Rightarrow> ('q, 'r, 'w) select_action_view \<Rightarrow> http_request \<Rightarrow> 'q \<Rightarrow> 'w
     \<Rightarrow> ('r, 'w) action_run" where
  "response_action fw self request queryset w =
     (let data = mvd_pop ''index'' (mvd_pop ACTION_CHECKBOX_NAME (req_POST request))
      in case action_form self (get_action_choices fw self request) data of
           None \<Rightarrow>
             \<lparr>returned = Inr None, recorded = [(WARNING, NoActionSelected)], world_after = w\<rparr>
         | Some (action_name, select_across) \<Rightarrow>
             (case map_of (get_actions fw self request) action_name of
                None \<Rightarrow> \<lparr>returned = Inl KeyError, recorded = [], world_after = w\<rparr>
              | Some entry \<Rightarrow>
                  (let func = fst entry;
                       selected = mvd_getlist (req_POST request) ACTION_CHECKBOX_NAME
                   in if selected = [] \<and> \<not> select_across then
                        \<lparr>returned = Inr None, recorded = [(WARNING, ItemsMustBeSelected)],
                         world_after = w\<rparr>
                      else
                        (case selection_cap_exceeded select_across (action_selection_max self) selected of
                           Some m \<Rightarrow>
                             \<lparr>returned = Inr None, recorded = [(ERROR, SelectionMaxExceeded m)],
                              world_after = w\<rparr>
                         | None \<Rightarrow>
                             perform_action fw request func selected select_across queryset w))))"

section \<open>views/mixins.py: MultipleLookupMixin\<close>

text \<open>
  \<open>url_kwargs\<close> is \<open>self.kwargs\<close>; \<open>view_get_queryset\<close> is what \<open>self.get_queryset()\<close>
  yields. Of a queryset the method uses its truth value (\<open>queryset or ...\<close>) and
  \<open>queryset.get(**{field: value})\<close>, which returns the one matching record or raises;
  both are parameters.
\<close>

record 'q lookup_view =
  lookup_fields :: "string list"
  lookup_url_kwarg :: "string option"
  url_kwargs :: "(string \<times> string) list"
  view_get_queryset :: "exn + 'q"

record ('q, 'o) orm =
  qs_truthy :: "'q \<Rightarrow> bool"
  qs_get :: "'q \<Rightarrow> string \<Rightarrow> string option \<Rightarrow> exn + 'o"

text \<open>The exceptions the \<open>except\<close> clause names.\<close>

definition lookup_caught :: "exn \<Rightarrow> bool" where
  "lookup_caught e = (e = ValueError \<or> e = ValidationError \<or> e = DoesNotExist)"

text \<open>
  The loop \<open>for i, field in enumerate(self.lookup_fields)\<close>, from index \<open>i\<close> on; \<open>n\<close> is
  \<open>len(self.lookup_fields)\<close> and \<open>look field\<close> is the call of \<open>queryset.get\<close> for the
  field. Falling off the end of the loop returns \<open>None\<close>.
\<close>

fun lookup_loop :: "(string \<Rightarrow> exn + 'o) \<Rightarrow> nat \<Rightarrow> nat \<Rightarrow> string list \<Rightarrow> exn + 'o option" where
  "lookup_loop look n i [] = Inr None"
| "lookup_loop look n i (field # rest) =
     (case look field of
        Inr ob \<Rightarrow> Inr (Some ob)
      | Inl e \<Rightarrow>
          (if lookup_caught e then
             (if int i = int n - 1 then Inl Http404
              else lookup_loop look n (Suc i) rest)
           else Inl e))"

text \<open>\<open>queryset or self.get_queryset()\<close>.\<close>

definition resolve_queryset :: "('q, 'o) orm \<Rightarrow> 'q lookup_view \<Rightarrow> 'q option \<Rightarrow> exn + 'q" where
  "resolve_queryset db self queryset =
     (case queryset of
        Some q \<Rightarrow> (if qs_truthy db q then Inr q else view_get_queryset self)
      | None \<Rightarrow> view_get_queryset self)"

definition get_object ::
  "('q, 'o) orm \<Rightarrow> 'q lookup_view \<Rightarrow> 'q option \<Rightarrow> exn + 'o option" where
  "get_object db self queryset =
     (if length (lookup_fields self) = 0 then Inl AttributeError
      else
        (case lookup_url_kwarg self of
           None \<Rightarrow> Inl AttributeError
         | Some kwarg \<Rightarrow>
             (if kwarg = [] then Inl AttributeError
              else
                (case resolve_queryset db self queryset of
                   Inl e \<Rightarrow> Inl e
                 | Inr q \<Rightarrow>
                     lookup_loop (\<lambda>field. qs_get db q field (map_of (url_kwargs self) kwarg))
                       (length (lookup_fields self)) 0 (lookup_fields self)))))"

section \<open>Instances for running the definitions\<close>

subsection \<open>The built-in \<open>int\<close> on a string of code points below 256\<close>

text \<open>
  \<open>int(s)\<close> in base 10, for a string whose code points are below 256 (a \<open>char\<close> is read
  as its code point): whitespace around the number is dropped (the code points 9-13, 32,
  133 and 160), one optional sign follows, then the decimal digits \<open>0\<close>-\<open>9\<close>, where
  single underscores may separate digits; more than 4300 digits, and anything else,
  raises \<open>ValueError\<close>.
\<close>

definition py_isspace :: "char \<Rightarrow> bool" where
  "py_isspace c = ((of_char c :: nat) \<in> set [9, 10, 11, 12, 13, 32, 133, 160])"

definition digit_val :: "char \<Rightarrow> int option" where
  "digit_val c =
     (let n = (of_char c :: nat)
      in if 48 \<le> n \<and> n \<le> 57 then Some (int n - 48) else None)"

definition py_strip :: "string \<Rightarrow> string" where
  "py_strip s = rev (dropWhile py_isspace (rev (dropWhile py_isspace s)))"

text \<open>\<open>py_digits acc prev cs\<close>: \<open>acc\<close> is the value read so far, \<open>prev\<close> tells whether the
  previous character was a digit (an underscore is legal only between two digits).\<close>

fun py_digits :: "int \<Rightarrow> bool \<Rightarrow> string \<Rightarrow> int option" where
  "py_digits acc prev [] = (if prev then Some acc else None)"
| "py_digits acc prev (c # cs) =
     (if c = CHR ''_'' then (if prev then py_digits acc False cs else None)
      else (case digit_val c of
              None \<Rightarrow> None
            | Some d \<Rightarrow> py_digits (acc * 10 + d) True cs))"

definition int_max_str_digits :: nat where
  "int_max_str_digits = 4300"

definition py_int :: "string \<Rightarrow> exn + int" where
  "py_int s =
     (case py_strip s of
        [] \<Rightarrow> Inl ValueError
      | c # cs \<Rightarrow>
          (let body = (if c = CHR ''-'' \<or> c = CHR ''+'' then cs else c # cs)
           in if length (filter (\<lambda>d. d \<noteq> CHR ''_'') body) > int_max_str_digits then
                Inl ValueError
              else
                (case py_digits 0 False body of
                   None \<Rightarrow> Inl ValueError
                 | Some n \<Rightarrow> Inr (if c = CHR ''-'' then - n else n))))"

subsection \<open>A framework over integer keys\<close>

text \<open>The selected values as integer keys; \<open>None\<close> when one of them is no integer.\<close>

fun py_ints :: "string list \<Rightarrow> int list option" where
  "py_ints [] = Some []"
| "py_ints (s # ss) =
     (case py_int s of
        Inl e \<Rightarrow> None
      | Inr n \<Rightarrow> (case py_ints ss of None \<Rightarrow> None | Some ns \<Rightarrow> Some (n # ns)))"

text \<open>
  Querysets are lists of integer primary keys: every action passes the permission
  filter, an action is described by its name, and \<open>filter(pk__in=selected)\<close> keeps the
  selected keys and raises \<open>ValueError\<close> when a selected value is not an integer.
\<close>

definition list_framework :: "(int list, 'r, 'w) admin_framework" where
  "list_framework =
     \<lparr>ModelAdmin_filter_actions_by_permissions = (\<lambda>self request actions. actions),
      ModelAdmin_get_action_description = (\<lambda>func name. name),
      format_description = (\<lambda>d. d),
      filter_pk_in = (\<lambda>selected queryset.
         case py_ints selected of
           None \<Rightarrow> Inl ValueError
         | Some ns \<Rightarrow> Inr (filter (\<lambda>pk. pk \<in> set ns) queryset))\<rparr>"

text \<open>\<open>str.lower\<close> on the letters \<open>A\<close>-\<open>Z\<close>.\<close>

definition ascii_lower :: "char \<Rightarrow> char" where
  "ascii_lower c =
     (let n = (of_char c :: nat)
      in if 65 \<le> n \<and> n \<le> 90 then char_of (n + 32) else c)"

text \<open>
  A form in the manner of the framework's \<open>ActionForm\<close>: valid when the submitted
  \<open>action\<close> is a non-empty choice; \<open>select_across\<close> is an optional boolean field, false
  when missing or empty and when its lower-cased value is \<open>false\<close> or \<open>0\<close>.
\<close>

definition choice_form ::
  "(string \<times> string) list \<Rightarrow> string multi_value_dict \<Rightarrow> (string \<times> bool) option" where
  "choice_form choices data =
     (case mvd_get data ''action'' of
        None \<Rightarrow> None
      | Some a \<Rightarrow>
          (if a \<noteq> [] \<and> a \<in> set (map fst choices) then
             Some (a, (case mvd_get data ''select_across'' of
                         None \<Rightarrow> False
                       | Some b \<Rightarrow> b \<noteq> [] \<and> map ascii_lower b \<notin> set [''false'', ''0'']))
           else None))"

text \<open>The world is the list of keys acted on so far: the action adds the keys of its
  queryset and returns \<open>None\<close>.\<close>

definition plain_action :: "string \<Rightarrow> (int list, 'r, int list) action_fn" where
  "plain_action name =
     \<lparr>fn_name = name, fn_attrs = Map.empty, fn_body = (\<lambda>q w. (Returned None, w @ q))\<rparr>"

definition example_view ::
  "int option \<Rightarrow> (int list, 'r, int list) action_fn \<Rightarrow> (int list, 'r, int list) select_action_view" where
  "example_view selection_max func =
     \<lparr>view_actions = Some [Callable func], class_attrs = Map.empty,
      action_form = choice_form, action_selection_max = selection_max\<rparr>"

text \<open>A POST of the action form: the chosen action, the values of \<open>select_across\<close> and
  the values of the selected checkboxes; a field without a value is not submitted.\<close>

definition example_post :: "string \<Rightarrow> string list \<Rightarrow> string list \<Rightarrow> http_request" where
  "example_post name across selected =
     \<lparr>req_GET = [],
      req_POST = filter (\<lambda>e. snd e \<noteq> [])
                   [(''action'', [name]), (''select_across'', across),
                    (ACTION_CHECKBOX_NAME, selected)],
      req_full_path = ''/items/''\<rparr>"

subsection \<open>A lookup over a table\<close>

text \<open>Records \<open>(pk, slug)\<close>: \<open>get\<close> on \<open>pk\<close> or \<open>slug\<close> finds the one record with that
  value; a missing value or no match is \<open>DoesNotExist\<close>, a \<open>pk\<close> that is not a number is
  \<open>ValueError\<close>, several matches and unknown fields are other errors.\<close>

definition table_get :: "(int \<times> string) list \<Rightarrow> string \<Rightarrow> string option \<Rightarrow> exn + (int \<times> string)" where
  "table_get q field v =
     (case v of
        None \<Rightarrow> Inl DoesNotExist
      | Some w \<Rightarrow>
          (if field = ''pk'' then
             (case py_int w of
                Inl e \<Rightarrow> Inl ValueError
              | Inr n \<Rightarrow>
                  (case filter (\<lambda>r. fst r = n) q of
                     [] \<Rightarrow> Inl DoesNotExist
                   | [r] \<Rightarrow> Inr r
                   | _ \<Rightarrow> Inl (OtherError ''MultipleObjectsReturned'')))
           else if field = ''slug'' then
             (case filter (\<lambda>r. snd r = w) q of
                [] \<Rightarrow> Inl DoesNotExist
              | [r] \<Rightarrow> Inr r
              | _ \<Rightarrow> Inl (OtherError ''MultipleObjectsReturned''))
           else Inl (OtherError ''FieldError'')))"

definition table_orm :: "((int \<times> string) list, int \<times> string) orm" where
  "table_orm = \<lparr>qs_truthy = (\<lambda>q. q \<noteq> []), qs_get = table_get\<rparr>"

section \<open>Properties of AdjustablePaginationMixin.get\_paginate\_by\<close>

subsection \<open>The first element of a stable sort\<close>

lemma hd_sort_key_first_min:
  fixes f :: "'a \<Rightarrow> 'b::linorder"
  assumes "xs \<noteq> []"
  shows "\<exists>x pre post ys. sort_key f xs = x # ys \<and> xs = pre @ x # post \<and>
           (\<forall>y\<in>set pre. f x < f y) \<and> (\<forall>y\<in>set post. f x \<le> f y)"
  using assms
proof (induction xs)
  case Nil
  then show ?case by simp
next
  case (Cons a xs)
  show ?case
  proof (cases "xs = []")
    case True
    have "sort_key f (a # xs) = a # []" using True by simp
    moreover have "a # xs = [] @ a # []" using True by simp
    ultimately show ?thesis by (metis empty_iff list.set(1))
  next
    case False
    from Cons.IH [OF False] obtain x pre post ys where
      s: "sort_key f xs = x # ys" and e: "xs = pre @ x # post"
      and p: "\<forall>y\<in>set pre. f x < f y" and q: "\<forall>y\<in>set post. f x \<le> f y"
      by blast
    show ?thesis
    proof (cases "f a \<le> f x")
      case True
      have "sort_key f (a # xs) = a # x # ys" using s True by simp
      moreover have "a # xs = [] @ a # xs" by simp
      moreover have "\<forall>y\<in>set xs. f a \<le> f y" using e p q True by auto
      ultimately show ?thesis by (metis empty_iff list.set(1))
    next
      case False
      have "sort_key f (a # xs) = x # insort_key f a ys" using s False by simp
      moreover have "a # xs = (a # pre) @ x # post" using e by simp
      moreover have "\<forall>y\<in>set (a # pre). f x < f y" using p False by auto
      ultimately show ?thesis using q by blast
    qed
  qed
qed

lemma nearest_choice_empty: "nearest_choice [] n = Inl IndexError"
  by (simp add: nearest_choice_def)

lemma nearest_choice_first_min:
  assumes "cs \<noteq> []"
  shows "\<exists>c pre post. nearest_choice cs n = Inr c \<and> cs = pre @ c # post \<and>
           (\<forall>j\<in>set pre. \<bar>c - n\<bar> < \<bar>j - n\<bar>) \<and> (\<forall>j\<in>set post. \<bar>c - n\<bar> \<le> \<bar>j - n\<bar>)"
proof -
  let ?g = "\<lambda>i. (\<bar>i - n\<bar>, i)"
  have "map ?g cs \<noteq> []" using assms by simp
  from hd_sort_key_first_min [OF this, of fst] obtain x pre' post' ys where
    s: "sort_key fst (map ?g cs) = x # ys" and e: "map ?g cs = pre' @ x # post'"
    and p: "\<forall>y\<in>set pre'. fst x < fst y" and q: "\<forall>y\<in>set post'. fst x \<le> fst y"
    by blast
  from e obtain pre c post where
    cs: "cs = pre @ c # post" and pre: "pre' = map ?g pre" and x: "x = ?g c"
    and post: "post' = map ?g post"
    by (auto simp: map_eq_append_conv map_eq_Cons_conv)
  have "nearest_choice cs n = Inr c" using s x by (simp add: nearest_choice_def)
  moreover have "\<forall>j\<in>set pre. \<bar>c - n\<bar> < \<bar>j - n\<bar>" using p pre x by simp
  moreover have "\<forall>j\<in>set post. \<bar>c - n\<bar> \<le> \<bar>j - n\<bar>" using q post x by simp
  ultimately show ?thesis using cs by blast
qed

lemma requested_page_size_cases:
  "requested_page_size int_of_str v =
     (case map_of (request_GET v) (pagination_param v) of
        None \<Rightarrow> Inr 0
      | Some vs \<Rightarrow> (if vs = [] then Inr 0 else int_of_str (last vs)))"
  by (simp add: requested_page_size_def mvd_get_def split: option.splits)

text \<open>
  When the \<open>paginate_by\<close> parameter is absent (the requested size is then 0) or its last
  value is a string that \<open>int\<close> converts to \<open>n\<close>, and \<open>pagination_choices\<close> is not empty,
  \<open>get_paginate_by\<close> returns a member of \<open>pagination_choices\<close> whose absolute difference
  from \<open>n\<close> is minimal: the first such member in the order of the list.
\<close>

lemma get_paginate_by_nearest:
  assumes "(map_of (request_GET v) (pagination_param v) = None \<and> n = 0)
           \<or> (\<exists>vs. map_of (request_GET v) (pagination_param v) = Some vs \<and> vs \<noteq> []
                  \<and> int_of_str (last vs) = Inr n)"
    and "pagination_choices v \<noteq> []"
  shows "\<exists>c. get_paginate_by int_of_str v = Inr c \<and> c \<in> set (pagination_choices v)
           \<and> (\<forall>j\<in>set (pagination_choices v). \<bar>c - n\<bar> \<le> \<bar>j - n\<bar>)
           \<and> (\<exists>pre post. pagination_choices v = pre @ c # post
                \<and> (\<forall>j\<in>set pre. \<bar>c - n\<bar> < \<bar>j - n\<bar>))"
proof -
  have r: "requested_page_size int_of_str v = Inr n"
    using assms(1) by (auto simp: requested_page_size_cases)
  from nearest_choice_first_min [OF assms(2), of n] obtain c pre post where
    c: "nearest_choice (pagination_choices v) n = Inr c"
    and cs: "pagination_choices v = pre @ c # post"
    and p: "\<forall>j\<in>set pre. \<bar>c - n\<bar> < \<bar>j - n\<bar>" and q: "\<forall>j\<in>set post. \<bar>c - n\<bar> \<le> \<bar>j - n\<bar>"
    by blast
  have g: "get_paginate_by int_of_str v = Inr c" using r c by (simp add: get_paginate_by_def)
  have m: "c \<in> set (pagination_choices v)" using cs by simp
  have "\<forall>j\<in>set (pre @ c # post). \<bar>c - n\<bar> \<le> \<bar>j - n\<bar>" using p q by auto
  then have a: "\<forall>j\<in>set (pagination_choices v). \<bar>c - n\<bar> \<le> \<bar>j - n\<bar>" using cs by simp
  show ?thesis using g m a cs p by blast
qed

text \<open>
  C1 fails on the code. The claim has \<open>get_paginate_by\<close> return the nearest member of
  \<open>pagination_choices\<close> for every request; for the request \<open>?paginate_by=abc\<close> and the
  class's choices, \<open>int\<close> raises \<open>ValueError\<close>, the \<open>except TypeError\<close> around it does not
  catch it, and the call ends in \<open>ValueError\<close>. The fallback the \<open>except\<close> branch sets,
  the size 0, would have given 25.
\<close>

theorem get_paginate_by_value_error_at_abc:
  "py_int ''abc'' = Inl ValueError
   \<and> get_paginate_by py_int (default_pagination_view [(''paginate_by'', [''abc''])])
       = Inl ValueError
   \<and> nearest_choice (pagination_choices (default_pagination_view [(''paginate_by'', [''abc''])])) 0
       = Inr 25"
proof -
  have a: "py_int ''abc'' = Inl ValueError" by code_simp
  have b: "get_paginate_by py_int (default_pagination_view [(''paginate_by'', [''abc''])])
             = Inl ValueError"
    using a by (simp add: get_paginate_by_def requested_page_size_cases default_pagination_view_def)
  have c: "nearest_choice (pagination_choices (default_pagination_view [(''paginate_by'', [''abc''])])) 0
             = Inr 25"
    by (simp add: default_pagination_view_def nearest_choice_def)
  show ?thesis using a b c by simp
qed

text \<open>
  C9. Whatever \<open>int\<close> does on strings: when the last value of the \<open>paginate_by\<close>
  parameter makes \<open>int\<close> raise \<open>ValueError\<close>, \<open>get_paginate_by\<close> ends in that
  \<open>ValueError\<close>, whatever the choices, while a \<open>TypeError\<close> is caught and the call goes
  on as for an absent parameter; whenever \<open>get_paginate_by\<close> returns a page size, the
  page size is a member of \<open>pagination_choices\<close> and the parameter was absent or
  converted (or raised the \<open>TypeError\<close> that is caught); and with a parameter absent or
  convertible and choices to pick from, it does return a member.
\<close>

theorem get_paginate_by_precondition:
  "(map_of (request_GET v) (pagination_param v) = Some vs \<and> vs \<noteq> []
      \<and> int_of_str (last vs) = Inl ValueError
      \<longrightarrow> get_paginate_by int_of_str v = Inl ValueError)
   \<and> (map_of (request_GET v) (pagination_param v) = Some vs \<and> vs \<noteq> []
      \<and> int_of_str (last vs) = Inl TypeError
      \<longrightarrow> get_paginate_by int_of_str v = get_paginate_by int_of_str (v\<lparr>request_GET := []\<rparr>))
   \<and> (get_paginate_by int_of_str v = Inr c
      \<longrightarrow> c \<in> set (pagination_choices v)
          \<and> (case map_of (request_GET v) (pagination_param v) of
                None \<Rightarrow> True
              | Some ws \<Rightarrow> ws = [] \<or> (\<exists>n. int_of_str (last ws) = Inr n)
                            \<or> int_of_str (last ws) = Inl TypeError))
   \<and> ((case map_of (request_GET v) (pagination_param v) of
          None \<Rightarrow> True
        | Some ws \<Rightarrow> ws = [] \<or> (\<exists>n. int_of_str (last ws) = Inr n))
       \<and> pagination_choices v \<noteq> []
      \<longrightarrow> (\<exists>c'. get_paginate_by int_of_str v = Inr c' \<and> c' \<in> set (pagination_choices v)))"
proof (intro conjI impI)
  assume "map_of (request_GET v) (pagination_param v) = Some vs \<and> vs \<noteq> []
      \<and> int_of_str (last vs) = Inl ValueError"
  then show "get_paginate_by int_of_str v = Inl ValueError"
    by (simp add: get_paginate_by_def requested_page_size_cases)
next
  assume "map_of (request_GET v) (pagination_param v) = Some vs \<and> vs \<noteq> []
      \<and> int_of_str (last vs) = Inl TypeError"
  then show "get_paginate_by int_of_str v = get_paginate_by int_of_str (v\<lparr>request_GET := []\<rparr>)"
    by (simp add: get_paginate_by_def requested_page_size_cases)
next
  assume r: "get_paginate_by int_of_str v = Inr c"
  have ne: "pagination_choices v \<noteq> []"
  proof
    assume "pagination_choices v = []"
    then show False using r
      by (simp add: get_paginate_by_def nearest_choice_empty split: sum.splits exn.splits)
  qed
  obtain n where n: "nearest_choice (pagination_choices v) n = Inr c"
    using r by (auto simp: get_paginate_by_def split: sum.splits exn.splits)
  from nearest_choice_first_min [OF ne, of n] n
  show "c \<in> set (pagination_choices v)" by auto
  show "case map_of (request_GET v) (pagination_param v) of
          None \<Rightarrow> True
        | Some ws \<Rightarrow> ws = [] \<or> (\<exists>n. int_of_str (last ws) = Inr n)
                      \<or> int_of_str (last ws) = Inl TypeError"
  proof (cases "map_of (request_GET v) (pagination_param v)")
    case None
    then show ?thesis by simp
  next
    case (Some ws)
    show ?thesis
    proof (cases "ws = []")
      case True
      then show ?thesis using Some by simp
    next
      case False
      show ?thesis
      proof (cases "int_of_str (last ws)")
        case (Inl e)
        have "e = TypeError"
        proof (rule ccontr)
          assume "e \<noteq> TypeError"
          then have "get_paginate_by int_of_str v = Inl e"
            using Some False Inl
            by (cases e) (simp_all add: get_paginate_by_def requested_page_size_cases)
          then show False using r by simp
        qed
        then show ?thesis using Some False Inl by simp
      next
        case (Inr k)
        then show ?thesis using Some by simp
      qed
    qed
  qed
next
  assume h: "(case map_of (request_GET v) (pagination_param v) of
                None \<Rightarrow> True
              | Some ws \<Rightarrow> ws = [] \<or> (\<exists>n. int_of_str (last ws) = Inr n))
             \<and> pagination_choices v \<noteq> []"
  have "\<exists>n. requested_page_size int_of_str v = Inr n"
  proof (cases "map_of (request_GET v) (pagination_param v)")
    case None
    then show ?thesis by (simp add: requested_page_size_cases)
  next
    case (Some ws)
    then show ?thesis using h by (cases "ws = []") (auto simp: requested_page_size_cases)
  qed
  then obtain n where "requested_page_size int_of_str v = Inr n" by blast
  moreover from nearest_choice_first_min [of "pagination_choices v" n] h
  obtain c' where "nearest_choice (pagination_choices v) n = Inr c'"
    and "c' \<in> set (pagination_choices v)" by auto
  ultimately show "\<exists>c'. get_paginate_by int_of_str v = Inr c' \<and> c' \<in> set (pagination_choices v)"
    by (simp add: get_paginate_by_def)
qed

theorem get_paginate_by_precondition_witness:
  "map_of (request_GET (default_pagination_view [(''paginate_by'', [''60'', ''ten''])]))
     (pagination_param (default_pagination_view [(''paginate_by'', [''60'', ''ten''])]))
     = Some [''60'', ''ten'']
   \<and> py_int ''ten'' = Inl ValueError
   \<and> get_paginate_by py_int (default_pagination_view [(''paginate_by'', [''60'', ''ten''])])
       = Inl ValueError
   \<and> get_paginate_by py_int (default_pagination_view [(''paginate_by'', [''ten'', ''60''])])
       = Inr 50
   \<and> 50 \<in> set (pagination_choices (default_pagination_view [(''paginate_by'', [''ten'', ''60''])]))"
proof -
  let ?v = "default_pagination_view [(''paginate_by'', [''60'', ''ten''])]"
  let ?w = "default_pagination_view [(''paginate_by'', [''ten'', ''60''])]"
  have g: "map_of (request_GET ?v) (pagination_param ?v) = Some [''60'', ''ten'']"
    by (simp add: default_pagination_view_def)
  have i: "py_int ''ten'' = Inl ValueError" by code_simp
  have j: "py_int ''60'' = Inr 60" by code_simp
  have a: "get_paginate_by py_int ?v = Inl ValueError"
    using get_paginate_by_precondition [of ?v "[''60'', ''ten'']" py_int] g i by simp
  have b: "get_paginate_by py_int ?w = Inr 50"
    using j
    by (simp add: get_paginate_by_def requested_page_size_cases default_pagination_view_def
        nearest_choice_def)
  have "50 \<in> set (pagination_choices ?w)"
    using get_paginate_by_precondition [of ?w "[]" py_int 50] b by simp
  then show ?thesis using g i a b by simp
qed

section \<open>Properties of ModelUserFieldPermissionMixin.test\_func\<close>

lemma compare_user_cases:
  "compare_user u (Some ob) name =
     (case obj_attrs ob name of None \<Rightarrow> Inl AttributeError | Some w \<Rightarrow> Inr (u = w))"
  by (simp add: compare_user_def py_getattr_def split: option.splits)

lemma test_func_on_object:
  assumes "view_object v = Some ob" and "obj_truthy ob"
  shows "test_func v =
           compare_user (request_user v) (Some ob) (get_model_permission_user_field v)"
  using assms by (simp add: test_func_def)

text \<open>
  C3. On a view whose \<open>object\<close> attribute holds a truthy object, \<open>test_func\<close> returns
  \<open>True\<close> exactly when the object's attribute named by
  \<open>get_model_permission_user_field()\<close> exists and equals \<open>request.user\<close>; it returns
  \<open>False\<close> exactly when the attribute exists and differs, and raises \<open>AttributeError\<close>
  exactly when the object has no such attribute. The name is \<open>user\<close> for a view that
  keeps the class attribute.
\<close>

theorem test_func_attribute_comparison:
  assumes "view_object v = Some ob" and "obj_truthy ob"
  shows "(test_func v = Inr True
            \<longleftrightarrow> obj_attrs ob (get_model_permission_user_field v) = Some (request_user v))
       \<and> (test_func v = Inr False
            \<longleftrightarrow> (\<exists>w. obj_attrs ob (get_model_permission_user_field v) = Some w
                      \<and> w \<noteq> request_user v))
       \<and> (test_func v = Inl AttributeError
            \<longleftrightarrow> obj_attrs ob (get_model_permission_user_field v) = None)
       \<and> get_model_permission_user_field (default_permission_view u ob' g q) = ''user''"
proof -
  have t: "test_func v =
      (case obj_attrs ob (get_model_permission_user_field v) of
         None \<Rightarrow> Inl AttributeError
       | Some w \<Rightarrow> Inr (request_user v = w))"
    using test_func_on_object [OF assms] by (simp add: compare_user_cases)
  have d: "get_model_permission_user_field (default_permission_view u ob' g q) = ''user''"
    by (simp add: get_model_permission_user_field_def default_permission_view_def)
  show ?thesis unfolding t using d by (auto split: option.splits)
qed

theorem test_func_attribute_comparison_witness:
  "test_func (default_permission_view ''alice''
       (Some \<lparr>obj_truthy = True, obj_attrs = [''user'' \<mapsto> ''alice'']\<rparr>) None (Inr None))
     = Inr True
   \<and> test_func (default_permission_view ''bob''
       (Some \<lparr>obj_truthy = True, obj_attrs = [''user'' \<mapsto> ''alice'']\<rparr>) None (Inr None))
     = Inr False"
proof -
  let ?ob = "\<lparr>obj_truthy = True, obj_attrs = [''user'' \<mapsto> ''alice'']\<rparr>"
  let ?a = "default_permission_view ''alice'' (Some ?ob) None (Inr None)"
  let ?b = "default_permission_view ''bob'' (Some ?ob) None (Inr None)"
  have a: "test_func ?a = Inr True"
    using test_func_attribute_comparison [of ?a ?ob]
    by (simp add: default_permission_view_def get_model_permission_user_field_def)
  have b: "test_func ?b = Inr False"
    using test_func_attribute_comparison [of ?b ?ob]
    by (simp add: default_permission_view_def get_model_permission_user_field_def)
  show ?thesis using a b by simp
qed

text \<open>
  C8, as amended. On a view with neither a truthy \<open>object\<close> attribute nor a
  \<open>get_object\<close> method, \<open>test_func\<close> never returns a value: when
  \<open>self.get_queryset().first()\<close> evaluates without raising, it raises
  \<open>UnboundLocalError\<close>, a \<open>NameError\<close>; when that evaluation raises, its exception goes
  through.
\<close>

theorem test_func_unbound_object:
  assumes "case view_object v of None \<Rightarrow> True | Some ob \<Rightarrow> \<not> obj_truthy ob"
    and "view_get_object v = None"
  shows "(\<forall>b. test_func v \<noteq> Inr b)
       \<and> (\<forall>r. view_queryset_first v = Inr r
              \<longrightarrow> test_func v = Inl UnboundLocalError \<and> is_NameError UnboundLocalError)
       \<and> (\<forall>e. view_queryset_first v = Inl e \<longrightarrow> test_func v = Inl e)"
proof -
  have c: "\<not> (case view_object v of None \<Rightarrow> False | Some ob \<Rightarrow> obj_truthy ob)"
    using assms(1) by (simp split: option.splits)
  have t: "test_func v =
      (case view_queryset_first v of Inl e \<Rightarrow> Inl e | Inr r \<Rightarrow> Inl UnboundLocalError)"
    using c assms(2) by (simp add: test_func_def)
  show ?thesis unfolding t by (simp split: sum.splits)
qed

theorem test_func_unbound_object_witness:
  "test_func (default_permission_view ''alice'' None None
       (Inr (Some \<lparr>obj_truthy = True, obj_attrs = [''user'' \<mapsto> ''alice'']\<rparr>)))
     = Inl UnboundLocalError
   \<and> is_NameError UnboundLocalError"
proof -
  let ?v = "default_permission_view ''alice'' None None
       (Inr (Some \<lparr>obj_truthy = True, obj_attrs = [''user'' \<mapsto> ''alice'']\<rparr>))"
  have "case view_object ?v of None \<Rightarrow> True | Some ob \<Rightarrow> \<not> obj_truthy ob"
    by (simp add: default_permission_view_def)
  moreover have "view_get_object ?v = None" by (simp add: default_permission_view_def)
  ultimately show ?thesis
    using test_func_unbound_object [of ?v] by (simp add: default_permission_view_def)
qed

text \<open>C8 as stated fails on a view that has no \<open>get_queryset\<close> either: looking the method
  up raises \<open>AttributeError\<close>, which is not a \<open>NameError\<close>.\<close>

theorem test_func_unbound_object_counterexample:
  "test_func (default_permission_view ''alice'' None None (Inl AttributeError))
     = Inl AttributeError
   \<and> \<not> is_NameError AttributeError"
  by (simp add: test_func_def default_permission_view_def)

section \<open>Properties of the action decorator\<close>

lemma decorator_attrs:
  "fn_attrs (decorator p d a f) =
     (\<lambda>k. if k = ''allow_select_across'' then Some (ABool a)
          else if k = ''short_description'' then
            (case d of None \<Rightarrow> fn_attrs f k | Some s \<Rightarrow> Some (AStr s))
          else if k = ''allowed_permissions'' then
            (case p of None \<Rightarrow> fn_attrs f k | Some ps \<Rightarrow> Some (APerms ps))
          else fn_attrs f k)"
  by (rule ext) (simp add: decorator_def setattr_def Let_def split: option.splits)

lemma decorator_same_function:
  "(decorator p d a f)\<lparr>fn_attrs := fn_attrs f\<rparr> = f"
  by (simp add: decorator_def setattr_def Let_def split: option.splits)

text \<open>
  C6. Both forms of use give the same result \<open>g\<close> for a function \<open>f\<close>; \<open>g\<close> is \<open>f\<close>
  itself but for its attributes (putting \<open>f\<close>'s attributes back gives \<open>f\<close>);
  \<open>allow_select_across\<close> is the given flag, and \<open>False\<close> in the bare form;
  \<open>allowed_permissions\<close> and \<open>short_description\<close> are the given argument when it is not
  \<open>None\<close> and are left as they were when it is; no other attribute changes.
\<close>

theorem action_attaches_metadata:
  "decorate (action (Some f) p d a) f = decorate (action None p d a) f
   \<and> (decorate (action None p d a) f)\<lparr>fn_attrs := fn_attrs f\<rparr> = f
   \<and> fn_attrs (decorate (action None p d a) f) ''allow_select_across'' = Some (ABool a)
   \<and> fn_attrs (decorate (bare_action f) f) ''allow_select_across'' = Some (ABool False)
   \<and> fn_attrs (decorate (action None p d a) f) ''allowed_permissions''
       = (case p of None \<Rightarrow> fn_attrs f ''allowed_permissions'' | Some ps \<Rightarrow> Some (APerms ps))
   \<and> fn_attrs (decorate (action None p d a) f) ''short_description''
       = (case d of None \<Rightarrow> fn_attrs f ''short_description'' | Some s \<Rightarrow> Some (AStr s))
   \<and> (\<forall>k. k \<noteq> ''allow_select_across'' \<and> k \<noteq> ''allowed_permissions''
            \<and> k \<noteq> ''short_description''
          \<longrightarrow> fn_attrs (decorate (action None p d a) f) k = fn_attrs f k)"
  by (simp add: action_def bare_action_def decorator_attrs decorator_same_function)

theorem action_attaches_metadata_witness:
  "fn_attrs (decorate (action None (Some [''change'']) None True)
       \<lparr>fn_name = ''publish'', fn_attrs = [''note'' \<mapsto> AStr ''x''], fn_body = ()\<rparr>) ''note''
     = Some (AStr ''x'')
   \<and> fn_attrs (decorate (action None (Some [''change'']) None True)
       \<lparr>fn_name = ''publish'', fn_attrs = [''note'' \<mapsto> AStr ''x''], fn_body = ()\<rparr>)
       ''allowed_permissions''
     = Some (APerms [''change''])
   \<and> fn_attrs (decorate (action None (Some [''change'']) None True)
       \<lparr>fn_name = ''publish'', fn_attrs = [''note'' \<mapsto> AStr ''x''], fn_body = ()\<rparr>)
       ''short_description''
     = None"
  using action_attaches_metadata
    [of "\<lparr>fn_name = ''publish'', fn_attrs = [''note'' \<mapsto> AStr ''x''], fn_body = ()\<rparr>"
        "Some [''change'']" None True]
  by simp

section \<open>Properties of the methods taken over from the framework\<close>

text \<open>
  C7. Whatever the framework's \<open>ChangeList.get_query_string\<close> and
  \<open>ModelAdmin._filter_actions_by_permissions\<close> compute, the methods of the three mixins
  compute the same on the same instance and arguments; the mixins' own callers pass the
  arguments the source passes.
\<close>

theorem framework_methods_unchanged:
  "SelectActionMixin_get_query_string F self new_params remove = F self new_params remove
   \<and> ListFilterMixin_get_query_string F self new_params remove = F self new_params remove
   \<and> AdjustablePaginationMixin_get_query_string F self new_params remove
       = F self new_params remove
   \<and> SelectActionMixin_filter_actions_by_permissions G view request actions
       = G view request actions
   \<and> get_action_form_url H inst = H inst None None
   \<and> get_pagination_form_url K pv = K pv None (Some [pagination_param pv])"
  by (simp add: SelectActionMixin_get_query_string_def ListFilterMixin_get_query_string_def
      AdjustablePaginationMixin_get_query_string_def
      SelectActionMixin_filter_actions_by_permissions_def get_action_form_url_def
      get_pagination_form_url_def)

section \<open>Properties of build\_query\_string\<close>

lemma map_fst_qd_items: "map fst (qd_items d) = map fst d"
  by (induction d) (auto simp: qd_items_def)

lemma map_of_qd_items_setitem:
  "map_of (qd_items (mvd_setitem k v d)) = (map_of (qd_items d))(k \<mapsto> v)"
  by (induction d) (auto simp: qd_items_def)

lemma map_of_qd_items_delitem:
  "map_of (qd_items (mvd_delitem k d)) = (map_of (qd_items d))(k := None)"
  by (induction d) (auto simp: qd_items_def mvd_delitem_def)

lemma map_of_qd_items_absent:
  "\<not> mvd_contains d k \<Longrightarrow> (map_of (qd_items d))(k := None) = map_of (qd_items d)"
proof -
  assume "\<not> mvd_contains d k"
  then have "k \<notin> fst ` set (qd_items d)"
    using map_fst_qd_items [of d] by (metis mvd_contains_def set_map)
  then have "map_of (qd_items d) k = None" by (simp add: map_of_eq_None_iff)
  then show ?thesis by (simp add: fun_upd_idem)
qed

lemma map_of_qd_items_apply_param:
  "map_of (qd_items (apply_param kv p)) =
     (if snd kv = PNone then (map_of (qd_items p))(fst kv := None)
      else (map_of (qd_items p))(fst kv \<mapsto> snd kv))"
  by (simp add: apply_param_def map_of_qd_items_setitem map_of_qd_items_delitem
      map_of_qd_items_absent)

lemma map_of_qd_items_fold:
  "map_of (qd_items (fold apply_param params p)) = spec_merge params (map_of (qd_items p))"
  unfolding spec_merge_def
  by (induction params arbitrary: p) (simp_all add: map_of_qd_items_apply_param)

lemma keys_mvd_setitem: "set (map fst (mvd_setitem k v d)) = insert k (set (map fst d))"
  by (induction d) auto

lemma distinct_mvd_setitem:
  "distinct (map fst d) \<Longrightarrow> distinct (map fst (mvd_setitem k v d))"
  by (induction d) (auto simp: keys_mvd_setitem simp flip: set_map)

lemma distinct_mvd_delitem:
  "distinct (map fst d) \<Longrightarrow> distinct (map fst (mvd_delitem k d))"
  by (simp add: mvd_delitem_def distinct_map_filter)

lemma distinct_apply_param:
  "distinct (map fst p) \<Longrightarrow> distinct (map fst (apply_param kv p))"
  by (simp add: apply_param_def distinct_mvd_setitem distinct_mvd_delitem)

lemma distinct_fold_apply_param:
  "distinct (map fst p) \<Longrightarrow> distinct (map fst (fold apply_param params p))"
  by (induction params arbitrary: p) (simp_all add: distinct_apply_param)

lemma distinct_keys_insort_key:
  "distinct (map fst (insort_key fst x xs)) = (fst x \<notin> fst ` set xs \<and> distinct (map fst xs))"
  by (induction xs) (auto simp: set_insort_key)

lemma distinct_keys_sort_key:
  "distinct (map fst (sort_key fst xs)) = distinct (map fst xs)"
  by (induction xs) (simp_all add: distinct_keys_insort_key)

lemma map_of_sort_key:
  assumes "distinct (map fst xs)"
  shows "map_of (sort_key fst xs) = map_of xs"
  using assms by (simp add: map_of_inject_set distinct_keys_sort_key)

lemma same_keys_same_map_eq:
  assumes "distinct (map fst xs)" and "map fst xs = map fst ys" and "map_of xs = map_of ys"
  shows "xs = ys"
  using assms
proof (induction xs arbitrary: ys)
  case Nil
  then show ?case by simp
next
  case (Cons x xs)
  from Cons.prems(2) obtain y ys' where ys: "ys = y # ys'" and f: "fst x = fst y"
    and k: "map fst xs = map fst ys'"
    by (cases ys) auto
  have e: "map_of (x # xs) a = map_of (y # ys') a" for a
    using Cons.prems(3) unfolding ys by (rule fun_cong)
  have s: "snd x = snd y" using e [of "fst x"] f by simp
  have xy: "x = y" using f s by (simp add: prod_eq_iff)
  have nx: "fst x \<notin> set (map fst xs)" using Cons.prems(1) by simp
  then have ny: "fst x \<notin> set (map fst ys')" using k by simp
  have "map_of xs = map_of ys'"
  proof (rule ext)
    fix a
    show "map_of xs a = map_of ys' a"
    proof (cases "a = fst x")
      case True
      have "map_of xs a = None" using nx True by (simp add: map_of_eq_None_iff)
      moreover have "map_of ys' a = None" using ny True by (simp add: map_of_eq_None_iff)
      ultimately show ?thesis by simp
    next
      case False
      show ?thesis using e [of a] False f by simp
    qed
  qed
  moreover have "distinct (map fst xs)" using Cons.prems(1) by simp
  ultimately have "xs = ys'" using k by (rule Cons.IH [rotated 2])
  then show ?case using xy ys by simp
qed

lemma sorted_distinct_map_of_unique:
  fixes xs ys :: "('a::linorder \<times> 'b) list"
  assumes "sorted (map fst xs)" "distinct (map fst xs)"
    and "sorted (map fst ys)" "distinct (map fst ys)"
    and "map_of xs = map_of ys"
  shows "xs = ys"
proof -
  have "dom (map_of xs) = dom (map_of ys)" using assms(5) by simp
  then have "set (map fst xs) = set (map fst ys)" by (simp add: dom_map_of_conv_image_fst)
  then have k: "map fst xs = map fst ys"
    using assms(1-4) by (rule sorted_distinct_set_unique [rotated 4])
  show ?thesis using assms(2) k assms(5) by (rule same_keys_same_map_eq)
qed

lemma map_of_qd_items_qd_copy:
  "map_of (qd_items (qd_copy d)) =
     (\<lambda>k. case map_of d k of
            None \<Rightarrow> None
          | Some vs \<Rightarrow> Some (if vs = [] then PEmptyList else PStr (last vs)))"
  by (induction d) (auto simp: qd_items_def qd_copy_def fun_eq_iff last_map)

lemma map_fst_qd_copy: "map fst (qd_copy d) = map fst d"
  by (induction d) (auto simp: qd_copy_def)

text \<open>
  C4. \<open>build_query_string\<close> returns \<open>urlencode\<close> of a list of pairs that is sorted by
  key, has each key once, and as a dictionary is the request's parameters (each key with
  its last value; none when there is no request) after the keyword parameters were
  applied in turn, a \<open>None\<close> value deleting the key (nothing happens when it is absent)
  and any other value being stored under it. There is one such list only. The keys of the
  request's dictionary are distinct, as those of every dictionary.
\<close>

theorem build_query_string_merge:
  assumes "case request of None \<Rightarrow> True | Some r \<Rightarrow> distinct (map fst (req_GET r))"
  shows "build_query_string urlencode request params = urlencode (query_items request params)
       \<and> sorted (map fst (query_items request params))
       \<and> distinct (map fst (query_items request params))
       \<and> map_of (query_items request params) = spec_merge params (spec_get_params request)
       \<and> (\<forall>ys. sorted (map fst ys) \<and> distinct (map fst ys)
                \<and> map_of ys = spec_merge params (spec_get_params request)
              \<longrightarrow> ys = query_items request params)"
proof -
  define p where "p = (case request of None \<Rightarrow> [] | Some r \<Rightarrow> qd_copy (req_GET r))"
  have q: "query_items request params = sort_key fst (qd_items (fold apply_param params p))"
    by (simp add: query_items_def p_def)
  have dp: "distinct (map fst p)"
  proof (cases request)
    case None
    then show ?thesis by (simp add: p_def)
  next
    case (Some r)
    then show ?thesis using assms by (simp add: p_def map_fst_qd_copy)
  qed
  have mp: "map_of (qd_items p) = spec_get_params request"
  proof (cases request)
    case None
    then show ?thesis by (simp add: p_def spec_get_params_def qd_items_def)
  next
    case (Some r)
    then show ?thesis by (simp add: p_def spec_get_params_def map_of_qd_items_qd_copy)
  qed
  have d: "distinct (map fst (qd_items (fold apply_param params p)))"
    using dp by (simp add: map_fst_qd_items distinct_fold_apply_param)
  have 1: "sorted (map fst (query_items request params))"
    unfolding q by (rule sorted_sort_key)
  have 2: "distinct (map fst (query_items request params))"
    unfolding q using d by (simp add: distinct_keys_sort_key)
  have "map_of (query_items request params) = map_of (qd_items (fold apply_param params p))"
    unfolding q using d by (rule map_of_sort_key)
  then have 3: "map_of (query_items request params) = spec_merge params (spec_get_params request)"
    using mp by (simp add: map_of_qd_items_fold)
  have 4: "\<forall>ys. sorted (map fst ys) \<and> distinct (map fst ys)
                \<and> map_of ys = spec_merge params (spec_get_params request)
              \<longrightarrow> ys = query_items request params"
  proof (intro allI impI)
    fix ys :: "(string \<times> pyval) list"
    assume a: "sorted (map fst ys) \<and> distinct (map fst ys)
                \<and> map_of ys = spec_merge params (spec_get_params request)"
    have "map_of ys = map_of (query_items request params)" using a 3 by simp
    with a 1 2 show "ys = query_items request params"
      by (intro sorted_distinct_map_of_unique) simp_all
  qed
  have 0: "build_query_string urlencode request params = urlencode (query_items request params)"
    by (simp add: build_query_string_def)
  from 0 1 2 3 4 show ?thesis by (intro conjI)
qed

theorem build_query_string_merge_witness:
  "distinct (map fst (req_GET \<lparr>req_GET = [(''page'', [''2'']), (''b'', [''x'', ''y'']), (''a'', [''1''])],
       req_POST = [], req_full_path = ''/''\<rparr>))
   \<and> build_query_string (\<lambda>ps. concat (map fst ps))
       (Some \<lparr>req_GET = [(''page'', [''2'']), (''b'', [''x'', ''y'']), (''a'', [''1''])],
          req_POST = [], req_full_path = ''/''\<rparr>)
       [(''page'', PNone), (''q'', PStr ''tea''), (''zz'', PNone), (''a'', PInt 5)]
     = ''abq''
   \<and> query_items
       (Some \<lparr>req_GET = [(''page'', [''2'']), (''b'', [''x'', ''y'']), (''a'', [''1''])],
          req_POST = [], req_full_path = ''/''\<rparr>)
       [(''page'', PNone), (''q'', PStr ''tea''), (''zz'', PNone), (''a'', PInt 5)]
     = [(''a'', PInt 5), (''b'', PStr ''y''), (''q'', PStr ''tea'')]"
proof -
  let ?r = "\<lparr>req_GET = [(''page'', [''2'']), (''b'', [''x'', ''y'']), (''a'', [''1''])],
       req_POST = [], req_full_path = ''/''\<rparr>"
  let ?p = "[(''page'', PNone), (''q'', PStr ''tea''), (''zz'', PNone), (''a'', PInt 5)]"
  have h: "case Some ?r of None \<Rightarrow> True | Some r \<Rightarrow> distinct (map fst (req_GET r))"
    by simp
  have q: "query_items (Some ?r) ?p = [(''a'', PInt 5), (''b'', PStr ''y''), (''q'', PStr ''tea'')]"
    by code_simp
  show ?thesis
    using build_query_string_merge [OF h, of "\<lambda>ps. concat (map fst ps)" ?p] q by simp
qed

section \<open>Properties of MultipleLookupMixin.get\_object\<close>

lemma lookup_loop_all_caught:
  assumes "fs \<noteq> []" and "i + length fs = n"
    and "\<forall>g\<in>set fs. \<exists>e. look g = Inl e \<and> lookup_caught e"
  shows "lookup_loop look n i fs = Inl Http404"
  using assms
proof (induction fs arbitrary: i)
  case Nil
  then show ?case by simp
next
  case (Cons f fs)
  from Cons.prems(3) obtain e where e: "look f = Inl e" "lookup_caught e" by auto
  show ?case
  proof (cases "fs = []")
    case True
    then have "int i = int n - 1" using Cons.prems(2) by simp
    then show ?thesis using e by simp
  next
    case False
    then have "int i \<noteq> int n - 1" using Cons.prems(2) by (cases fs) auto
    moreover have "lookup_loop look n (Suc i) fs = Inl Http404"
      using False Cons.prems by (intro Cons.IH) auto
    ultimately show ?thesis using e by simp
  qed
qed

lemma lookup_loop_first_match:
  assumes "i + length (pre @ f # post) = n"
    and "\<forall>g\<in>set pre. \<exists>e. look g = Inl e \<and> lookup_caught e"
    and "look f = Inr ob"
  shows "lookup_loop look n i (pre @ f # post) = Inr (Some ob)"
  using assms
proof (induction pre arbitrary: i)
  case Nil
  then show ?case by simp
next
  case (Cons g pre)
  from Cons.prems(2) obtain e where e: "look g = Inl e" "lookup_caught e" by auto
  have "int i \<noteq> int n - 1" using Cons.prems(1) by auto
  moreover have "lookup_loop look n (Suc i) (pre @ f # post) = Inr (Some ob)"
    using Cons.prems by (intro Cons.IH) auto
  ultimately show ?case using e by simp
qed

lemma lookup_loop_uncaught:
  assumes "\<forall>g\<in>set pre. \<exists>e. look g = Inl e \<and> lookup_caught e"
    and "i + length (pre @ f # post) = n"
    and "look f = Inl e" and "\<not> lookup_caught e"
  shows "lookup_loop look n i (pre @ f # post) = Inl e"
  using assms
proof (induction pre arbitrary: i)
  case Nil
  then show ?case by simp
next
  case (Cons g pre)
  from Cons.prems(1) obtain e' where e: "look g = Inl e'" "lookup_caught e'" by auto
  have "int i \<noteq> int n - 1" using Cons.prems(2) by auto
  moreover have "lookup_loop look n (Suc i) (pre @ f # post) = Inl e"
    using Cons.prems by (intro Cons.IH) auto
  ultimately show ?case using e by simp
qed

lemma get_object_loop:
  assumes "lookup_fields self \<noteq> []" and "lookup_url_kwarg self = Some kwarg" and "kwarg \<noteq> []"
    and "resolve_queryset db self queryset = Inr q"
  shows "get_object db self queryset =
           lookup_loop (\<lambda>field. qs_get db q field (map_of (url_kwargs self) kwarg))
             (length (lookup_fields self)) 0 (lookup_fields self)"
  using assms by (simp add: get_object_def)

text \<open>
  C5. \<open>get_object\<close> raises \<open>AttributeError\<close> when \<open>lookup_fields\<close> is empty and when
  \<open>lookup_url_kwarg\<close> is unset (\<open>None\<close> or empty). Otherwise let \<open>q\<close> be the queryset
  (the argument when it is truthy, else \<open>self.get_queryset()\<close>) and \<open>value\<close> be
  \<open>self.kwargs.get(self.lookup_url_kwarg)\<close>. When \<open>q.get(**{g: value})\<close> fails with
  \<open>ValueError\<close>, \<open>ValidationError\<close> or \<open>DoesNotExist\<close> for every field \<open>g\<close> before a field
  \<open>f\<close> of \<open>lookup_fields\<close>, and \<open>q.get(**{f: value})\<close> finds a record, \<open>get_object\<close>
  returns that record; when it fails with one of these three for every field of
  \<open>lookup_fields\<close>, the last included, \<open>get_object\<close> raises \<open>Http404\<close>.
\<close>

theorem get_object_multiple_lookup:
  "(lookup_fields self = [] \<longrightarrow> get_object db self queryset = Inl AttributeError)
   \<and> (lookup_url_kwarg self = None \<or> lookup_url_kwarg self = Some []
        \<longrightarrow> get_object db self queryset = Inl AttributeError)
   \<and> (lookup_url_kwarg self = Some kwarg \<and> kwarg \<noteq> []
        \<and> (case queryset of
               Some q0 \<Rightarrow> (if qs_truthy db q0 then Inr q0 else view_get_queryset self)
             | None \<Rightarrow> view_get_queryset self) = Inr q
        \<and> lookup_fields self = pre @ f # post
        \<and> (\<forall>g\<in>set pre. qs_get db q g (map_of (url_kwargs self) kwarg)
                            \<in> {Inl ValueError, Inl ValidationError, Inl DoesNotExist})
        \<and> qs_get db q f (map_of (url_kwargs self) kwarg) = Inr ob
        \<longrightarrow> get_object db self queryset = Inr (Some ob))
   \<and> (lookup_url_kwarg self = Some kwarg \<and> kwarg \<noteq> []
        \<and> (case queryset of
               Some q0 \<Rightarrow> (if qs_truthy db q0 then Inr q0 else view_get_queryset self)
             | None \<Rightarrow> view_get_queryset self) = Inr q
        \<and> lookup_fields self \<noteq> []
        \<and> (\<forall>g\<in>set (lookup_fields self).
              qs_get db q g (map_of (url_kwargs self) kwarg)
                \<in> {Inl ValueError, Inl ValidationError, Inl DoesNotExist})
        \<longrightarrow> get_object db self queryset = Inl Http404)"
proof (intro conjI impI)
  assume "lookup_fields self = []"
  then show "get_object db self queryset = Inl AttributeError" by (simp add: get_object_def)
next
  assume "lookup_url_kwarg self = None \<or> lookup_url_kwarg self = Some []"
  then show "get_object db self queryset = Inl AttributeError"
    by (auto simp: get_object_def)
next
  let ?look = "\<lambda>field. qs_get db q field (map_of (url_kwargs self) kwarg)"
  assume h: "lookup_url_kwarg self = Some kwarg \<and> kwarg \<noteq> []
        \<and> (case queryset of
               Some q0 \<Rightarrow> (if qs_truthy db q0 then Inr q0 else view_get_queryset self)
             | None \<Rightarrow> view_get_queryset self) = Inr q
        \<and> lookup_fields self = pre @ f # post
        \<and> (\<forall>g\<in>set pre. qs_get db q g (map_of (url_kwargs self) kwarg)
                            \<in> {Inl ValueError, Inl ValidationError, Inl DoesNotExist})
        \<and> qs_get db q f (map_of (url_kwargs self) kwarg) = Inr ob"
  then have ne: "lookup_fields self \<noteq> []" by simp
  have rq: "resolve_queryset db self queryset = Inr q"
    using h by (simp add: resolve_queryset_def)
  have c: "\<forall>g\<in>set pre. \<exists>e. ?look g = Inl e \<and> lookup_caught e"
    using h by (auto simp: lookup_caught_def)
  have "get_object db self queryset =
          lookup_loop ?look (length (pre @ f # post)) 0 (pre @ f # post)"
    using get_object_loop [OF ne _ _ rq, of kwarg] h by simp
  also have "\<dots> = Inr (Some ob)"
    using h c by (intro lookup_loop_first_match) simp_all
  finally show "get_object db self queryset = Inr (Some ob)" .
next
  let ?look = "\<lambda>field. qs_get db q field (map_of (url_kwargs self) kwarg)"
  assume h: "lookup_url_kwarg self = Some kwarg \<and> kwarg \<noteq> []
        \<and> (case queryset of
               Some q0 \<Rightarrow> (if qs_truthy db q0 then Inr q0 else view_get_queryset self)
             | None \<Rightarrow> view_get_queryset self) = Inr q
        \<and> lookup_fields self \<noteq> []
        \<and> (\<forall>g\<in>set (lookup_fields self).
              qs_get db q g (map_of (url_kwargs self) kwarg)
                \<in> {Inl ValueError, Inl ValidationError, Inl DoesNotExist})"
  have rq: "resolve_queryset db self queryset = Inr q"
    using h by (simp add: resolve_queryset_def)
  have c: "\<forall>g\<in>set (lookup_fields self). \<exists>e. ?look g = Inl e \<and> lookup_caught e"
    using h by (auto simp: lookup_caught_def)
  have "get_object db self queryset =
          lookup_loop ?look (length (lookup_fields self)) 0 (lookup_fields self)"
    using get_object_loop [OF _ _ _ rq, of kwarg] h by simp
  also have "\<dots> = Inl Http404"
    using h c by (intro lookup_loop_all_caught) simp_all
  finally show "get_object db self queryset = Inl Http404" .
qed

theorem get_object_multiple_lookup_witness:
  "get_object table_orm
     \<lparr>lookup_fields = [''pk'', ''slug'', ''name''], lookup_url_kwarg = Some ''key'',
      url_kwargs = [(''key'', ''tea'')], view_get_queryset = Inr [(1, ''tea''), (2, ''mate'')]\<rparr>
     None
   = Inr (Some (1, ''tea''))
   \<and> get_object table_orm
     \<lparr>lookup_fields = [''pk'', ''slug''], lookup_url_kwarg = Some ''key'',
      url_kwargs = [(''key'', ''chai'')], view_get_queryset = Inr [(1, ''tea''), (2, ''mate'')]\<rparr>
     None
   = Inl Http404"
proof -
  let ?q = "[(1, ''tea''), (2, ''mate'')] :: (int \<times> string) list"
  let ?v = "\<lparr>lookup_fields = [''pk'', ''slug'', ''name''], lookup_url_kwarg = Some ''key'',
      url_kwargs = [(''key'', ''tea'')], view_get_queryset = Inr ?q\<rparr>"
  let ?w = "\<lparr>lookup_fields = [''pk'', ''slug''], lookup_url_kwarg = Some ''key'',
      url_kwargs = [(''key'', ''chai'')], view_get_queryset = Inr ?q\<rparr>"
  have pt: "py_int ''tea'' = Inl ValueError" by code_simp
  have pc: "py_int ''chai'' = Inl ValueError" by code_simp
  have v1: "qs_get table_orm ?q ''pk'' (Some ''tea'') = Inl ValueError"
    using pt by (simp add: table_orm_def table_get_def)
  have v2: "qs_get table_orm ?q ''slug'' (Some ''tea'') = Inr (1, ''tea'')"
    by (simp add: table_orm_def table_get_def)
  have w1: "qs_get table_orm ?q ''pk'' (Some ''chai'') = Inl ValueError"
    using pc by (simp add: table_orm_def table_get_def)
  have w2: "qs_get table_orm ?q ''slug'' (Some ''chai'') = Inl DoesNotExist"
    by (simp add: table_orm_def table_get_def)
  have a: "get_object table_orm ?v None = Inr (Some (1, ''tea''))"
    using get_object_multiple_lookup
      [of ?v table_orm None "''key''" ?q "[''pk'']" "''slug''" "[''name'']" "(1, ''tea'')"]
      v1 v2
    by simp
  have b: "get_object table_orm ?w None = Inl Http404"
    using get_object_multiple_lookup [of ?w table_orm None "''key''" ?q] w1 w2
    by simp
  show ?thesis using a b by simp
qed

section \<open>Properties of SelectActionMixin.response\_action\<close>

lemma call_action_cases:
  "call_action request func q w =
     (case fn_body func q w of
        (res, w') \<Rightarrow>
          \<lparr>returned =
             (case res of
                Returned None \<Rightarrow> Inr (Some (HttpResponseRedirect (req_full_path request)))
              | Returned (Some response) \<Rightarrow> Inr (Some response)
              | Raised (ActionException s) \<Rightarrow>
                  Inr (Some (HttpResponseRedirect (req_full_path request)))
              | Raised e \<Rightarrow> Inl e),
           recorded = (case res of Raised (ActionException s) \<Rightarrow> [(ERROR, ActionFailed s)] | _ \<Rightarrow> []),
           world_after = w'\<rparr>)"
  by (simp add: call_action_def handle_action_finished_def
      split: prod.splits call_result.splits exn.splits option.splits)

lemma call_action_recorded:
  "(ERROR, SelectionMaxExceeded m) \<notin> set (recorded (call_action request func q w))"
  by (simp add: call_action_def split: prod.splits call_result.splits exn.splits option.splits)

lemma response_action_valid:
  assumes "action_form self
             (([], ''---------'') #
              map (\<lambda>e. (fst (snd (snd e)), format_description fw (snd (snd (snd e)))))
                (get_actions fw self request))
             (filter (\<lambda>e. fst e \<noteq> ''_selected_action'' \<and> fst e \<noteq> ''index'')
                (req_POST request))
           = Some (a, select_across)"
    and "map_of (get_actions fw self request) a = Some (func, name, descr)"
    and "selected = (case map_of (req_POST request) ''_selected_action'' of
                       None \<Rightarrow> [] | Some vs \<Rightarrow> vs)"
  shows "response_action fw self request queryset w =
     (if selected = [] \<and> \<not> select_across then
        \<lparr>returned = Inr None, recorded = [(WARNING, ItemsMustBeSelected)], world_after = w\<rparr>
      else
        (case selection_cap_exceeded select_across (action_selection_max self) selected of
           Some m \<Rightarrow>
             \<lparr>returned = Inr None, recorded = [(ERROR, SelectionMaxExceeded m)],
              world_after = w\<rparr>
         | None \<Rightarrow> perform_action fw request func selected select_across queryset w))"
  using assms(1,2) unfolding assms(3)
  by (simp add: response_action_def Let_def get_action_choices_def BLANK_CHOICE_DASH_def
      mvd_pop_def mvd_getlist_def ACTION_CHECKBOX_NAME_def)

lemma dict_setitem_keys: "set (map fst (dict_setitem k v d)) = insert k (set (map fst d))"
  by (induction d) auto

lemma dict_setitem_entries: "set (dict_setitem k v d) \<subseteq> insert (k, v) (set d)"
  by (induction d) auto

lemma fold_dict_setitem_named:
  assumes "\<forall>e\<in>set d. fst e = fst (snd (snd e))"
  shows "\<forall>e\<in>set (fold (\<lambda>e d. dict_setitem (fst (snd e)) e d) xs d).
           fst e = fst (snd (snd e))"
  using assms
proof (induction xs arbitrary: d)
  case Nil
  then show ?case by simp
next
  case (Cons x xs)
  have "\<forall>e\<in>set (dict_setitem (fst (snd x)) x d). fst e = fst (snd (snd e))"
    using Cons.prems dict_setitem_entries [of "fst (snd x)" x d] by auto
  then show ?case using Cons.IH by simp
qed

lemma get_actions_named:
  "\<forall>e\<in>set (get_actions fw self request). fst e = fst (snd (snd e))"
proof (cases "view_actions self")
  case None
  then show ?thesis by (simp add: get_actions_def)
next
  case (Some as)
  show ?thesis
    using Some
      fold_dict_setitem_named
        [of "[]" "SelectActionMixin_filter_actions_by_permissions
                    (ModelAdmin_filter_actions_by_permissions fw) self request
                    (get_base_actions fw self)"]
    by (simp add: get_actions_def)
qed

text \<open>
  With a form that accepts only a non-empty choice, as the framework's form does, the
  validated action name is a key of \<open>get_actions(request)\<close>: the lookup
  \<open>self.get_actions(request)[action]\<close> cannot raise \<open>KeyError\<close>.
\<close>

lemma choice_form_action_available:
  assumes "choice_form (get_action_choices fw self request) data = Some (a, sa)"
  shows "\<exists>entry. map_of (get_actions fw self request) a = Some entry"
proof -
  from assms have n: "a \<noteq> []" and m: "a \<in> set (map fst (get_action_choices fw self request))"
    by (auto simp: choice_form_def split: option.splits if_splits)
  from m n have "a \<in> (\<lambda>e. fst (snd (snd e))) ` set (get_actions fw self request)"
    by (auto simp: get_action_choices_def BLANK_CHOICE_DASH_def)
  then have "a \<in> fst ` set (get_actions fw self request)"
    using get_actions_named [of fw self request] by force
  then show ?thesis by (metis map_of_eq_None_iff not_Some_eq)
qed

text \<open>
  C2. Let the POSTed form be valid with \<open>select_across\<close> false and name an action
  \<open>func\<close> of \<open>get_actions(request)\<close>, and let \<open>selected\<close> be the submitted checkbox
  values. When \<open>action_selection_max\<close> is \<open>m\<close> and more than \<open>m\<close> values are selected,
  \<open>response_action\<close> returns \<open>None\<close>, leaves the world as it was whatever \<open>func\<close> does
  (the function is not called) and records one message instead: the error about the
  maximum, always so for \<open>m\<close> not negative; under a negative maximum an empty selection
  gets the warning that nothing is selected. When at most \<open>m\<close> values are selected, the
  error about the maximum is not recorded, and a non-empty selection that
  \<open>queryset.filter\<close> accepts reaches the function: the outcome is that of calling
  \<open>func\<close> on the filtered queryset.
\<close>

theorem response_action_selection_cap:
  assumes "action_form self
             (([], ''---------'') #
              map (\<lambda>e. (fst (snd (snd e)), format_description fw (snd (snd (snd e)))))
                (get_actions fw self request))
             (filter (\<lambda>e. fst e \<noteq> ''_selected_action'' \<and> fst e \<noteq> ''index'')
                (req_POST request))
           = Some (a, False)"
    and "map_of (get_actions fw self request) a = Some (func, name, descr)"
    and "selected = (case map_of (req_POST request) ''_selected_action'' of
                       None \<Rightarrow> [] | Some vs \<Rightarrow> vs)"
  shows "(action_selection_max self = Some m \<and> int (length selected) > m
            \<longrightarrow> returned (response_action fw self request queryset w) = Inr None
                \<and> world_after (response_action fw self request queryset w) = w
                \<and> (recorded (response_action fw self request queryset w)
                      = [(ERROR, SelectionMaxExceeded m)]
                    \<or> (m < 0 \<and> selected = []
                        \<and> recorded (response_action fw self request queryset w)
                            = [(WARNING, ItemsMustBeSelected)])))
       \<and> (action_selection_max self = Some m \<and> int (length selected) > m \<and> 0 \<le> m
            \<longrightarrow> response_action fw self request queryset w =
                  \<lparr>returned = Inr None, recorded = [(ERROR, SelectionMaxExceeded m)],
                   world_after = w\<rparr>)
       \<and> (action_selection_max self = Some m \<and> int (length selected) \<le> m
            \<longrightarrow> (ERROR, SelectionMaxExceeded k)
                    \<notin> set (recorded (response_action fw self request queryset w))
                \<and> (selected \<noteq> [] \<and> filter_pk_in fw selected queryset = Inr filtered
                     \<longrightarrow> response_action fw self request queryset w =
                          (case fn_body func filtered w of
                             (res, w') \<Rightarrow>
                               \<lparr>returned =
                                  (case res of
                                     Returned None \<Rightarrow>
                                       Inr (Some (HttpResponseRedirect (req_full_path request)))
                                   | Returned (Some response) \<Rightarrow> Inr (Some response)
                                   | Raised (ActionException s) \<Rightarrow>
                                       Inr (Some (HttpResponseRedirect (req_full_path request)))
                                   | Raised e \<Rightarrow> Inl e),
                                recorded =
                                  (case res of
                                     Raised (ActionException s) \<Rightarrow> [(ERROR, ActionFailed s)]
                                   | _ \<Rightarrow> []),
                                world_after = w'\<rparr>)))"
proof (intro conjI impI)
  assume h: "action_selection_max self = Some m \<and> int (length selected) > m"
  have r: "response_action fw self request queryset w =
     (if selected = [] then
        \<lparr>returned = Inr None, recorded = [(WARNING, ItemsMustBeSelected)], world_after = w\<rparr>
      else \<lparr>returned = Inr None, recorded = [(ERROR, SelectionMaxExceeded m)],
            world_after = w\<rparr>)"
    using response_action_valid [OF assms, of queryset w] h
    by (simp add: selection_cap_exceeded_def)
  show "returned (response_action fw self request queryset w) = Inr None"
    unfolding r by simp
  show "world_after (response_action fw self request queryset w) = w"
    unfolding r by simp
  show "recorded (response_action fw self request queryset w)
          = [(ERROR, SelectionMaxExceeded m)]
        \<or> (m < 0 \<and> selected = []
            \<and> recorded (response_action fw self request queryset w)
                = [(WARNING, ItemsMustBeSelected)])"
    unfolding r using h by auto
next
  assume h: "action_selection_max self = Some m \<and> int (length selected) > m \<and> 0 \<le> m"
  then have "selected \<noteq> []" by auto
  then show "response_action fw self request queryset w =
                  \<lparr>returned = Inr None, recorded = [(ERROR, SelectionMaxExceeded m)],
                   world_after = w\<rparr>"
    using response_action_valid [OF assms, of queryset w] h
    by (simp add: selection_cap_exceeded_def)
next
  assume h: "action_selection_max self = Some m \<and> int (length selected) \<le> m"
  have r: "response_action fw self request queryset w =
     (if selected = [] then
        \<lparr>returned = Inr None, recorded = [(WARNING, ItemsMustBeSelected)], world_after = w\<rparr>
      else
        (case filter_pk_in fw selected queryset of
           Inl e \<Rightarrow> \<lparr>returned = Inl e, recorded = [], world_after = w\<rparr>
         | Inr filtered \<Rightarrow> call_action request func filtered w))"
    using response_action_valid [OF assms, of queryset w] h
    by (simp add: selection_cap_exceeded_def perform_action_def)
  show "(ERROR, SelectionMaxExceeded k)
          \<notin> set (recorded (response_action fw self request queryset w))"
    unfolding r by (simp add: call_action_recorded split: sum.splits)
  {
    assume "selected \<noteq> [] \<and> filter_pk_in fw selected queryset = Inr filtered"
    then have "response_action fw self request queryset w
                 = call_action request func filtered w"
      using r by simp
    then show "response_action fw self request queryset w =
        (case fn_body func filtered w of
           (res, w') \<Rightarrow>
             \<lparr>returned =
                (case res of
                   Returned None \<Rightarrow>
                     Inr (Some (HttpResponseRedirect (req_full_path request)))
                 | Returned (Some response) \<Rightarrow> Inr (Some response)
                 | Raised (ActionException s) \<Rightarrow>
                     Inr (Some (HttpResponseRedirect (req_full_path request)))
                 | Raised e \<Rightarrow> Inl e),
              recorded =
                (case res of
                   Raised (ActionException s) \<Rightarrow> [(ERROR, ActionFailed s)]
                 | _ \<Rightarrow> []),
              world_after = w'\<rparr>)"
      by (simp only: call_action_cases)
  }
qed

lemma example_get_actions:
  "get_actions list_framework (example_view cap (plain_action name)) request
     = [(name, (plain_action name, name, name))]"
  by (simp add: get_actions_def example_view_def list_framework_def get_base_actions_def
      get_action_def List.map_filter_simps SelectActionMixin_filter_actions_by_permissions_def
      plain_action_def)

lemma example_format_description: "format_description list_framework d = d"
  by (simp add: list_framework_def)

lemma example_filter_pk_in:
  "filter_pk_in list_framework selected q =
     (case py_ints selected of
        None \<Rightarrow> Inl ValueError
      | Some ns \<Rightarrow> Inr (filter (\<lambda>pk. pk \<in> set ns) q))"
  by (simp add: list_framework_def)

lemma example_form_publish:
  "action_form (example_view cap (plain_action ''publish''))
     (([], ''---------'') #
      map (\<lambda>e. (fst (snd (snd e)), format_description list_framework (snd (snd (snd e)))))
        (get_actions list_framework (example_view cap (plain_action ''publish''))
           (example_post ''publish'' across selected)))
     (filter (\<lambda>e. fst e \<noteq> ''_selected_action'' \<and> fst e \<noteq> ''index'')
        (req_POST (example_post ''publish'' across selected)))
   = Some (''publish'',
       across \<noteq> [] \<and> last across \<noteq> [] \<and> map ascii_lower (last across) \<notin> set [''false'', ''0''])"
proof -
  have a: "action_form (example_view cap (plain_action ''publish'')) = choice_form"
    by (simp add: example_view_def)
  show ?thesis unfolding a
    by (simp add: choice_form_def example_post_def mvd_get_def ACTION_CHECKBOX_NAME_def
        example_get_actions example_format_description)
qed

lemma example_action_selection_max:
  "action_selection_max (example_view cap func) = cap"
  by (simp add: example_view_def)

lemma example_selected:
  "(case map_of (req_POST (example_post name across selected)) ''_selected_action'' of
      None \<Rightarrow> [] | Some vs \<Rightarrow> vs) = selected"
  by (simp add: example_post_def ACTION_CHECKBOX_NAME_def)

lemma example_body: "fn_body (plain_action name) q w = (Returned None, w @ q)"
  by (simp add: plain_action_def)

lemma example_full_path: "req_full_path (example_post name across selected) = ''/items/''"
  by (simp add: example_post_def)

lemma example_py_ints:
  "py_ints [''1'', ''2'', ''3''] = Some [1, 2, 3]"
  "py_ints [''1'', ''3''] = Some [1, 3]"
  "py_ints [''2''] = Some [2]"
  "py_ints [''abc''] = None"
  by code_simp+

lemma example_filters:
  "filter_pk_in list_framework [''1'', ''3''] [1, 2, 3, 4] = Inr [1, 3]"
  "filter_pk_in list_framework [''2''] [1, 2, 3] = Inr [2]"
  "filter_pk_in list_framework [''abc''] [1, 2, 3] = Inl ValueError"
  by (simp_all add: example_filter_pk_in example_py_ints del: py_ints.simps)

theorem response_action_selection_cap_witness:
  "response_action list_framework (example_view (Some 2) (plain_action ''publish''))
     (example_post ''publish'' [] [''1'', ''2'', ''3'']) [1, 2, 3, 4] [9]
   = (\<lparr>returned = Inr None, recorded = [(ERROR, SelectionMaxExceeded 2)],
       world_after = [9]\<rparr> :: (unit, int list) action_run)
   \<and> response_action list_framework (example_view (Some 2) (plain_action ''publish''))
     (example_post ''publish'' [] [''1'', ''3'']) [1, 2, 3, 4] [9]
   = (\<lparr>returned = Inr (Some (HttpResponseRedirect ''/items/'')), recorded = [],
       world_after = [9, 1, 3]\<rparr> :: (unit, int list) action_run)"
proof -
  let ?f = "plain_action ''publish'' :: (int list, unit, int list) action_fn"
  let ?v = "example_view (Some 2) ?f"
  have m: "map_of (get_actions list_framework ?v r) ''publish''
             = Some (?f, ''publish'', ''publish'')" for r
    by (simp add: example_get_actions)
  have c: "action_selection_max ?v = Some 2" by (simp add: example_view_def)
  have a: "response_action list_framework ?v (example_post ''publish'' [] [''1'', ''2'', ''3''])
             [1, 2, 3, 4] [9]
           = \<lparr>returned = Inr None, recorded = [(ERROR, SelectionMaxExceeded 2)],
              world_after = [9]\<rparr>"
    using response_action_selection_cap
      [of ?v list_framework "example_post ''publish'' [] [''1'', ''2'', ''3'']" "''publish''"
          ?f "''publish''" "''publish''" "[''1'', ''2'', ''3'']" 2 "[1, 2, 3, 4]" "[9]"]
      m c
    by (simp add: example_selected example_form_publish)
  have b: "response_action list_framework ?v (example_post ''publish'' [] [''1'', ''3''])
             [1, 2, 3, 4] [9]
           = \<lparr>returned = Inr (Some (HttpResponseRedirect ''/items/'')), recorded = [],
              world_after = [9, 1, 3]\<rparr>"
    using response_action_selection_cap
      [of ?v list_framework "example_post ''publish'' [] [''1'', ''3'']" "''publish''"
          ?f "''publish''" "''publish''" "[''1'', ''3'']" 2 "[1, 2, 3, 4]" "[9]" _ "[1, 3]"]
      m c
    by (simp add: example_selected example_form_publish example_filters
        example_body example_full_path)
  show ?thesis using a b by simp
qed

text \<open>
  C10, as amended. Let the POSTed form be valid and name an action \<open>func\<close> of
  \<open>get_actions(request)\<close>. When \<open>select_across\<close> is true: if \<open>can_select_across\<close> holds,
  the outcome is that of calling \<open>func\<close> on the unfiltered queryset; otherwise the error
  is recorded and \<open>None\<close> returned with the world as it was (no call). When
  \<open>select_across\<close> is false and the selection is not empty and within the maximum: if
  \<open>queryset.filter(pk__in=selected)\<close> gives a queryset, the outcome is that of calling
  \<open>func\<close> on it; if the filter raises, the exception goes through and the world is as
  it was. \<open>can_select_across\<close> holds exactly when the function has a truthy
  \<open>allow_select_across\<close> attribute.
\<close>

theorem response_action_select_across:
  assumes "action_form self
             (([], ''---------'') #
              map (\<lambda>e. (fst (snd (snd e)), format_description fw (snd (snd (snd e)))))
                (get_actions fw self request))
             (filter (\<lambda>e. fst e \<noteq> ''_selected_action'' \<and> fst e \<noteq> ''index'')
                (req_POST request))
           = Some (a, select_across)"
    and "map_of (get_actions fw self request) a = Some (func, name, descr)"
    and "selected = (case map_of (req_POST request) ''_selected_action'' of
                       None \<Rightarrow> [] | Some vs \<Rightarrow> vs)"
  shows "(select_across \<and> can_select_across request func
            \<longrightarrow> response_action fw self request queryset w =
                  (case fn_body func queryset w of
                     (res, w') \<Rightarrow>
                       \<lparr>returned =
                          (case res of
                             Returned None \<Rightarrow>
                               Inr (Some (HttpResponseRedirect (req_full_path request)))
                           | Returned (Some response) \<Rightarrow> Inr (Some response)
                           | Raised (ActionException s) \<Rightarrow>
                               Inr (Some (HttpResponseRedirect (req_full_path request)))
                           | Raised e \<Rightarrow> Inl e),
                        recorded =
                          (case res of
                             Raised (ActionException s) \<Rightarrow> [(ERROR, ActionFailed s)]
                           | _ \<Rightarrow> []),
                        world_after = w'\<rparr>))
       \<and> (select_across \<and> \<not> can_select_across request func
            \<longrightarrow> response_action fw self request queryset w =
                  \<lparr>returned = Inr None, recorded = [(ERROR, DiscreteSelectionRequired)],
                   world_after = w\<rparr>)
       \<and> (\<not> select_across \<and> selected \<noteq> []
          \<and> (case action_selection_max self of
                None \<Rightarrow> True
              | Some m \<Rightarrow> int (length selected) \<le> m)
          \<and> filter_pk_in fw selected queryset = Inr filtered
            \<longrightarrow> response_action fw self request queryset w =
                  (case fn_body func filtered w of
                     (res, w') \<Rightarrow>
                       \<lparr>returned =
                          (case res of
                             Returned None \<Rightarrow>
                               Inr (Some (HttpResponseRedirect (req_full_path request)))
                           | Returned (Some response) \<Rightarrow> Inr (Some response)
                           | Raised (ActionException s) \<Rightarrow>
                               Inr (Some (HttpResponseRedirect (req_full_path request)))
                           | Raised e \<Rightarrow> Inl e),
                        recorded =
                          (case res of
                             Raised (ActionException s) \<Rightarrow> [(ERROR, ActionFailed s)]
                           | _ \<Rightarrow> []),
                        world_after = w'\<rparr>))
       \<and> (\<not> select_across \<and> selected \<noteq> []
          \<and> (case action_selection_max self of
                None \<Rightarrow> True
              | Some m \<Rightarrow> int (length selected) \<le> m)
          \<and> filter_pk_in fw selected queryset = Inl err
            \<longrightarrow> response_action fw self request queryset w =
                  \<lparr>returned = Inl err, recorded = [], world_after = w\<rparr>)
       \<and> (can_select_across request func
            \<longleftrightarrow> (\<exists>v. fn_attrs func ''allow_select_across'' = Some v \<and> attr_truthy v))"
proof (intro conjI impI)
  assume h: "select_across \<and> can_select_across request func"
  then have "response_action fw self request queryset w = call_action request func queryset w"
    using response_action_valid [OF assms, of queryset w]
    by (simp add: selection_cap_exceeded_def perform_action_def split: option.splits)
  then show "response_action fw self request queryset w =
      (case fn_body func queryset w of
         (res, w') \<Rightarrow>
           \<lparr>returned =
              (case res of
                 Returned None \<Rightarrow>
                   Inr (Some (HttpResponseRedirect (req_full_path request)))
               | Returned (Some response) \<Rightarrow> Inr (Some response)
               | Raised (ActionException s) \<Rightarrow>
                   Inr (Some (HttpResponseRedirect (req_full_path request)))
               | Raised e \<Rightarrow> Inl e),
            recorded =
              (case res of
                 Raised (ActionException s) \<Rightarrow> [(ERROR, ActionFailed s)]
               | _ \<Rightarrow> []),
            world_after = w'\<rparr>)"
    by (simp only: call_action_cases)
next
  assume h: "select_across \<and> \<not> can_select_across request func"
  then show "response_action fw self request queryset w =
                  \<lparr>returned = Inr None, recorded = [(ERROR, DiscreteSelectionRequired)],
                   world_after = w\<rparr>"
    using response_action_valid [OF assms, of queryset w]
    by (simp add: selection_cap_exceeded_def perform_action_def split: option.splits)
next
  assume h: "\<not> select_across \<and> selected \<noteq> []
          \<and> (case action_selection_max self of
                None \<Rightarrow> True
              | Some m \<Rightarrow> int (length selected) \<le> m)
          \<and> filter_pk_in fw selected queryset = Inr filtered"
  then have "response_action fw self request queryset w = call_action request func filtered w"
    using response_action_valid [OF assms, of queryset w]
    by (simp add: selection_cap_exceeded_def perform_action_def split: option.splits)
  then show "response_action fw self request queryset w =
      (case fn_body func filtered w of
         (res, w') \<Rightarrow>
           \<lparr>returned =
              (case res of
                 Returned None \<Rightarrow>
                   Inr (Some (HttpResponseRedirect (req_full_path request)))
               | Returned (Some response) \<Rightarrow> Inr (Some response)
               | Raised (ActionException s) \<Rightarrow>
                   Inr (Some (HttpResponseRedirect (req_full_path request)))
               | Raised e \<Rightarrow> Inl e),
            recorded =
              (case res of
                 Raised (ActionException s) \<Rightarrow> [(ERROR, ActionFailed s)]
               | _ \<Rightarrow> []),
            world_after = w'\<rparr>)"
    by (simp only: call_action_cases)
next
  assume h: "\<not> select_across \<and> selected \<noteq> []
          \<and> (case action_selection_max self of
                None \<Rightarrow> True
              | Some m \<Rightarrow> int (length selected) \<le> m)
          \<and> filter_pk_in fw selected queryset = Inl err"
  then show "response_action fw self request queryset w =
                  \<lparr>returned = Inl err, recorded = [], world_after = w\<rparr>"
    using response_action_valid [OF assms, of queryset w]
    by (simp add: selection_cap_exceeded_def perform_action_def split: option.splits)
next
  show "can_select_across request func
            \<longleftrightarrow> (\<exists>v. fn_attrs func ''allow_select_across'' = Some v \<and> attr_truthy v)"
    by (simp add: can_select_across_def split: option.splits)
qed

theorem response_action_select_across_witness:
  "response_action list_framework (example_view None (plain_action ''publish''))
     (example_post ''publish'' [''1''] [''2'']) [1, 2, 3] [9]
   = (\<lparr>returned = Inr None, recorded = [(ERROR, DiscreteSelectionRequired)],
       world_after = [9]\<rparr> :: (unit, int list) action_run)
   \<and> response_action list_framework
       (example_view None (decorator None None True (plain_action ''publish'')))
       (example_post ''publish'' [''1''] [''2'']) [1, 2, 3] [9]
   = (\<lparr>returned = Inr (Some (HttpResponseRedirect ''/items/'')), recorded = [],
       world_after = [9, 1, 2, 3]\<rparr> :: (unit, int list) action_run)
   \<and> response_action list_framework (example_view None (plain_action ''publish''))
       (example_post ''publish'' [] [''2'']) [1, 2, 3] [9]
   = (\<lparr>returned = Inr (Some (HttpResponseRedirect ''/items/'')), recorded = [],
       world_after = [9, 2]\<rparr> :: (unit, int list) action_run)"
proof -
  let ?p = "plain_action ''publish'' :: (int list, unit, int list) action_fn"
  let ?d = "decorator None None True ?p"
  let ?q = "[1, 2, 3] :: int list"
  let ?fw = "list_framework :: (int list, unit, int list) admin_framework"
  have gp: "map_of (get_actions ?fw (example_view None ?p) r) ''publish''
              = Some (?p, ''publish'', ''publish'')" for r
    by (simp add: example_get_actions)
  have nd: "fn_name ?d = ''publish''"
    by (simp add: decorator_def setattr_def plain_action_def Let_def)
  have bd: "fn_body ?d = (\<lambda>q w. (Returned None, w @ q))"
    by (simp add: decorator_def setattr_def plain_action_def Let_def)
  have gd0: "get_actions ?fw (example_view None ?d) r
              = [(''publish'', (?d, ''publish'', ''publish''))]" for r
    using nd
    by (simp add: get_actions_def example_view_def list_framework_def get_base_actions_def
        get_action_def List.map_filter_simps SelectActionMixin_filter_actions_by_permissions_def)
  have gd: "map_of (get_actions ?fw (example_view None ?d) r) ''publish''
              = Some (?d, ''publish'', ''publish'')" for r
    by (simp add: gd0)
  have fd: "action_form (example_view None ?d)
     (([], ''---------'') #
      map (\<lambda>e. (fst (snd (snd e)), format_description ?fw (snd (snd (snd e)))))
        (get_actions ?fw (example_view None ?d)
           (example_post ''publish'' [''1''] [''2''])))
     (filter (\<lambda>e. fst e \<noteq> ''_selected_action'' \<and> fst e \<noteq> ''index'')
        (req_POST (example_post ''publish'' [''1''] [''2''])))
   = Some (''publish'', True)"
    unfolding gd0
    by (simp add: example_view_def choice_form_def example_post_def mvd_get_def
        ACTION_CHECKBOX_NAME_def example_format_description ascii_lower_def)
  have fp: "map ascii_lower ''1'' \<notin> set [''false'', ''0'']"
    by (simp add: ascii_lower_def)
  have np: "\<not> can_select_across r ?p" for r
    by (simp add: can_select_across_def plain_action_def)
  have yd: "can_select_across r ?d" for r
    by (simp add: can_select_across_def decorator_def setattr_def Let_def)
  have a: "response_action ?fw (example_view None ?p)
             (example_post ''publish'' [''1''] [''2'']) ?q [9]
           = \<lparr>returned = Inr None, recorded = [(ERROR, DiscreteSelectionRequired)],
              world_after = [9]\<rparr>"
    using response_action_select_across
      [of "example_view None ?p" ?fw "example_post ''publish'' [''1''] [''2'']"
          "''publish''" True ?p "''publish''" "''publish''" "[''2'']" ?q "[9]"]
      gp np fp
    by (simp add: example_selected example_form_publish)
  have b: "response_action ?fw (example_view None ?d)
             (example_post ''publish'' [''1''] [''2'']) ?q [9]
           = \<lparr>returned = Inr (Some (HttpResponseRedirect ''/items/'')), recorded = [],
              world_after = [9, 1, 2, 3]\<rparr>"
    using response_action_select_across
      [of "example_view None ?d" ?fw "example_post ''publish'' [''1''] [''2'']"
          "''publish''" True ?d "''publish''" "''publish''" "[''2'']" ?q "[9]"]
      fd gd yd
    by (simp add: example_selected bd example_full_path)
  have c: "response_action ?fw (example_view None ?p)
             (example_post ''publish'' [] [''2'']) ?q [9]
           = \<lparr>returned = Inr (Some (HttpResponseRedirect ''/items/'')), recorded = [],
              world_after = [9, 2]\<rparr>"
    using response_action_select_across
      [of "example_view None ?p" ?fw "example_post ''publish'' [] [''2'']"
          "''publish''" False ?p "''publish''" "''publish''" "[''2'']" ?q "[9]" "[2]"]
      gp
    by (simp add: example_selected example_filters example_form_publish
        example_action_selection_max example_body example_full_path)
  show ?thesis using a b c by simp
qed

text \<open>
  C10 as stated fails when \<open>queryset.filter\<close> raises. The form is valid, \<open>select_across\<close>
  is false, there is no maximum, and the one selected value \<open>abc\<close> is no integer key:
  the call ends in the filter's \<open>ValueError\<close>, nothing is recorded and the world is as
  it was, so the action function, which returns \<open>None\<close> and adds the keys of its
  queryset to the world, was not called.
\<close>

theorem response_action_select_across_counterexample:
  "action_form (example_view None (plain_action ''publish'') :: (int list, unit, int list) select_action_view)
     (([], ''---------'') #
      map (\<lambda>e. (fst (snd (snd e)), format_description (list_framework :: (int list, unit, int list) admin_framework)
                   (snd (snd (snd e)))))
        (get_actions list_framework
           (example_view None (plain_action ''publish'') :: (int list, unit, int list) select_action_view)
           (example_post ''publish'' [] [''abc''])))
     (filter (\<lambda>e. fst e \<noteq> ''_selected_action'' \<and> fst e \<noteq> ''index'')
        (req_POST (example_post ''publish'' [] [''abc''])))
   = Some (''publish'', False)
   \<and> action_selection_max
       (example_view None (plain_action ''publish'') :: (int list, unit, int list) select_action_view)
     = None
   \<and> (case map_of (req_POST (example_post ''publish'' [] [''abc''])) ''_selected_action'' of
         None \<Rightarrow> [] | Some vs \<Rightarrow> vs) = [''abc'']
   \<and> fn_body (plain_action ''publish'' :: (int list, unit, int list) action_fn) [1, 2, 3] [9]
     = (Returned None, [9, 1, 2, 3])
   \<and> response_action list_framework (example_view None (plain_action ''publish''))
       (example_post ''publish'' [] [''abc'']) [1, 2, 3] [9]
     = (\<lparr>returned = Inl ValueError, recorded = [], world_after = [9]\<rparr>
          :: (unit, int list) action_run)"
proof -
  let ?p = "plain_action ''publish'' :: (int list, unit, int list) action_fn"
  let ?v = "example_view None ?p"
  let ?r = "example_post ''publish'' [] [''abc'']"
  let ?fw = "list_framework :: (int list, unit, int list) admin_framework"
  have f: "action_form ?v
     (([], ''---------'') #
      map (\<lambda>e. (fst (snd (snd e)), format_description ?fw (snd (snd (snd e)))))
        (get_actions ?fw ?v ?r))
     (filter (\<lambda>e. fst e \<noteq> ''_selected_action'' \<and> fst e \<noteq> ''index'') (req_POST ?r))
   = Some (''publish'', False)"
    by (simp add: example_form_publish)
  have c: "action_selection_max ?v = None" by (simp add: example_view_def)
  have s: "(case map_of (req_POST ?r) ''_selected_action'' of None \<Rightarrow> [] | Some vs \<Rightarrow> vs)
             = [''abc'']"
    by (rule example_selected)
  have b: "fn_body ?p [1, 2, 3] [9] = (Returned None, [9, 1, 2, 3])"
    by (simp add: example_body)
  have m: "map_of (get_actions ?fw ?v ?r) ''publish''
             = Some (?p, ''publish'', ''publish'')"
    by (simp add: example_get_actions)
  have r: "response_action ?fw ?v ?r [1, 2, 3] [9]
             = \<lparr>returned = Inl ValueError, recorded = [], world_after = [9]\<rparr>"
    using response_action_valid [OF f m s [symmetric], of "[1, 2, 3]" "[9]"] c
    by (simp add: selection_cap_exceeded_def perform_action_def example_filters)
  show ?thesis using f c s b r by simp
qed

end
